theory Spec2Isabelle
  imports Complex_Main "HOL-Library.Signed_Division" "HOL-Library.Multiset" "HOL-Library.AList"
begin

section \<open>Errors and results\<close>

text \<open>
  Go functions of the client return a value together with an \<open>error\<close>. Every function below
  that can fail returns \<open>error + 'a\<close>, with \<open>Inl\<close> for the non-nil error: each of their
  error returns has the form \<open>return nil, err\<close>, so nothing else is returned with an
  error. The error values
  the package builds itself are \<open>fmt.Errorf\<close> values (a format string, and the error wrapped
  by \<open>%w\<close> when there is one) and \<open>UnexpectedStatusCodeError\<close> (error.go). Errors handed
  back by libraries (net/http, x/time/rate, encoding/json) are opaque: \<open>LibError\<close>. A run-time
  panic (integer division by zero, slice bounds, nil dereference) is \<open>Panic\<close>.
\<close>

datatype error =
    Errorf string "error option"
  | UnexpectedStatusCodeError string int
  | LibError string
  | Panic string

type_synonym 'a result = "error + 'a"

text \<open>The message of \<open>authenticateRequest\<close> when a credential is missing.\<close>

definition ErrNoCredentials :: error where
  "ErrNoCredentials = Errorf ''no username or password set'' None"

section \<open>The batcher: createQueryStrings\<close>

text \<open>
  Go's slice expressions \<open>s[low:]\<close> and \<open>s[low:high]\<close> panic unless
  \<open>0 \<le> low \<le> high \<le> cap s\<close>. A slice is modelled as a list whose capacity is its length.
\<close>

definition slice_from :: "'a list \<Rightarrow> int \<Rightarrow> 'a list result" where
  "slice_from s low =
     (if 0 \<le> low \<and> low \<le> int (length s) then Inr (drop (nat low) s)
      else Inl (Panic ''slice bounds out of range''))"

definition slice_from_to :: "'a list \<Rightarrow> int \<Rightarrow> int \<Rightarrow> 'a list result" where
  "slice_from_to s low high =
     (if 0 \<le> low \<and> low \<le> high \<and> high \<le> int (length s)
      then Inr (take (nat (high - low)) (drop (nat low) s))
      else Inl (Panic ''slice bounds out of range''))"

text \<open>\<open>strings.Join\<close>.\<close>

fun Join :: "string list \<Rightarrow> string \<Rightarrow> string" where
  "Join [] sep = []"
| "Join [x] sep = x"
| "Join (x # y # ys) sep = x @ sep @ Join (y # ys) sep"

text \<open>The query string of one group: \<open>"id=" + strings.Join(slice, ";id=")\<close>.\<close>

definition queryString :: "string list \<Rightarrow> string" where
  "queryString slice = ''id='' @ Join slice '';id=''"

text \<open>
  The loop \<open>for i := pages; i > 0; i--\<close> of \<open>createQueryStrings\<close>, with the slice taken in
  each round and the query appended to \<open>requestQuerys\<close>. Go's \<open>int\<close> is modelled by
  \<open>int\<close>: \<open>i * length\<close> is at most \<open>len(productIDs) + length\<close>, and at most
  \<open>length\<close> itself when there is a single page, so it stays in range.
\<close>

function createQueryStrings_loop ::
  "string list \<Rightarrow> int \<Rightarrow> int \<Rightarrow> int \<Rightarrow> string list \<Rightarrow> string list result" where
  "createQueryStrings_loop productIDs len pages i requestQuerys =
     (if i > 0 then
        (let start = (i - 1) * len;
             stop = i * len
         in case (if i = pages then slice_from productIDs start
                  else slice_from_to productIDs start stop) of
              Inl e \<Rightarrow> Inl e
            | Inr slice \<Rightarrow>
                createQueryStrings_loop productIDs len pages (i - 1)
                  (requestQuerys @ [queryString slice]))
      else Inr requestQuerys)"
  by pat_completeness auto
termination
  by (relation "measure (\<lambda>(productIDs, len, pages, i, requestQuerys). nat i)") auto

declare createQueryStrings_loop.simps [simp del]

text \<open>
  \<open>createQueryStrings\<close>. Go's \<open>/\<close> and \<open>%\<close> on \<open>int\<close> truncate towards zero
  (\<open>sdiv\<close>, \<open>smod\<close>) and panic when the divisor is zero.
\<close>

definition createQueryStrings :: "string list \<Rightarrow> int \<Rightarrow> string list result" where
  "createQueryStrings productIDs len =
     (if len = 0 then Inl (Panic ''integer divide by zero'')
      else
        (let pages = int (length productIDs) sdiv len;
             pages = (if int (length productIDs) smod len > 0 then pages + 1 else pages)
         in createQueryStrings_loop productIDs len pages pages []))"

text \<open>
  Two auxiliary notions used to state what the loop produces: the \<open>k\<close>-th chunk of
  \<open>length\<close> consecutive identifiers, and the number of pages the function computes.
\<close>

definition chunk :: "string list \<Rightarrow> int \<Rightarrow> nat \<Rightarrow> string list" where
  "chunk productIDs len k = take (nat len) (drop (k * nat len) productIDs)"

definition page_count :: "string list \<Rightarrow> int \<Rightarrow> nat" where
  "page_count productIDs len =
     length productIDs div nat len + (if length productIDs mod nat len > 0 then 1 else 0)"

section \<open>Data model\<close>

text \<open>
  The structs of the package, with the fields the functions below read (the group of a
  product type is \<open>productType.ProductTypeGroup.ID\<close>, here \<open>GroupID\<close>). The client's
  \<open>http.Client\<close> and \<open>rate.Limiter\<close> are not fields of the record: what they answer
  is part of the environment, what has been asked of them is part of the world. The
  receiver \<open>its\<close> and the \<open>*Product\<close> arguments are records: the pointers are not nil.
\<close>

record Accessory =
  ReferencedProductID :: string

record Product =
  Puid :: string
  ProductTypeID :: string
  Image1 :: string
  Image2 :: string
  Image3 :: string
  Image4 :: string
  Image5 :: string
  Accessories :: "Accessory list"

record ProductsContainer =
  Product :: "Product list"

record ProductTypeGroup =
  GroupID :: string

record ProductType =
  ID :: string
  ProductTypeGroup :: ProductTypeGroup

record ProductTypesContainer =
  ProductTypes :: "ProductType list"

record ITScopeCommunicator =
  username :: string
  password :: string
  userAgent :: string
  language :: string
  CompanyName :: string

record Request =
  Method :: string
  URL :: string
  BasicAuth :: "(string \<times> string) option"
  Header :: "(string \<times> string) list"

record Response =
  StatusCode :: int
  Status :: string
  Body :: string

definition New :: "string \<Rightarrow> string \<Rightarrow> string \<Rightarrow> string \<Rightarrow> ITScopeCommunicator" where
  "New companyName userName pass lang =
     \<lparr>username = userName, password = pass,
      userAgent = companyName @ ''-ITS_ApiModule-0.1'',
      language = lang, CompanyName = companyName\<rparr>"

definition NewUnexpectedStatusCodeError :: "Response \<Rightarrow> error" where
  "NewUnexpectedStatusCodeError response =
     UnexpectedStatusCodeError (Status response) (StatusCode response)"

section \<open>Environment and world\<close>

text \<open>
  What the libraries and the network answer is a parameter of every operation:
  \<^item> \<open>NewRequestWithContext ctx method url\<close>: the request object, or net/http's error;
  \<^item> \<open>QueryEscape\<close>: \<open>url.QueryEscape\<close>;
  \<^item> \<open>limiter_Wait ctx k\<close>: what the \<open>k\<close>-th call of \<open>its.limiter.Wait\<close> returns
    (\<open>None\<close> is a granted token, \<open>Some e\<close> a cancelled or expired context);
  \<^item> \<open>client_Do k request\<close>: what the \<open>k\<close>-th call of \<open>its.client.Do\<close> returns, a
    transport error or a response;
  \<^item> the two JSON decoders, applied to a response body;
  \<^item> \<open>map_range\<close>: the order in which \<open>range\<close> visits the entries of a Go map.
  The world counts what the client has done so far: limiter waits, requests sent, seconds
  slept in back-off, response bodies closed, and the lines logged.
\<close>

record 'ctx env =
  NewRequestWithContext :: "'ctx \<Rightarrow> string \<Rightarrow> string \<Rightarrow> Request result"
  QueryEscape :: "string \<Rightarrow> string"
  limiter_Wait :: "'ctx \<Rightarrow> nat \<Rightarrow> error option"
  client_Do :: "nat \<Rightarrow> Request \<Rightarrow> Response result"
  Decode_ProductsContainer :: "string \<Rightarrow> ProductsContainer result"
  Decode_ProductTypesContainer :: "string \<Rightarrow> ProductTypesContainer result"
  map_range :: "(string \<times> Product) list \<Rightarrow> (string \<times> Product) list"

record world =
  waits :: nat
  requests :: nat
  slept :: nat
  closed_bodies :: nat
  logged :: "string list"

section \<open>The query executor\<close>

definition authenticateRequest :: "ITScopeCommunicator \<Rightarrow> Request \<Rightarrow> Request result" where
  "authenticateRequest its request =
     (if username its = [] \<or> password its = [] then Inl ErrNoCredentials
      else Inr (request
        \<lparr>BasicAuth := Some (username its, password its),
         Header := Header request @
           [(''Accept'', ''application/json''),
            (''UserAgent'', userAgent its),
            (''Accept-Language'', language its)]\<rparr>))"

text \<open>
  The test of the retry loop on what \<open>client.Do\<close> returned:
  \<open>err != nil || (response.StatusCode != 200 && response.StatusCode != 404)\<close>.
\<close>

definition is_transient :: "Response result \<Rightarrow> bool" where
  "is_transient r =
     (case r of
        Inl err \<Rightarrow> True
      | Inr response \<Rightarrow> StatusCode response \<noteq> 200 \<and> StatusCode response \<noteq> 404)"

text \<open>
  The loop \<open>for retries > 0\<close> of \<open>GetProductsFromQuery\<close> and of \<open>GetAllProductTypes\<close>;
  the two differ in the line they log (\<open>msg\<close>) only. It is left in one of three ways: the
  limiter fails (the function returns at once), \<open>break\<close>, or \<open>retries\<close> reaches zero; the
  last two hand on the current values of \<open>response\<close> and \<open>err\<close>.
\<close>

datatype loop_exit =
    LimiterFailed error
  | LoopEnd "Response option" "error option"

fun retry_loop ::
  "'ctx env \<Rightarrow> 'ctx \<Rightarrow> Request \<Rightarrow> string \<Rightarrow> nat \<Rightarrow> Response option \<Rightarrow> error option \<Rightarrow>
   world \<Rightarrow> loop_exit \<times> world" where
  "retry_loop env ctx request msg 0 response err w = (LoopEnd response err, w)"
| "retry_loop env ctx request msg (Suc retries) response err w =
     (case limiter_Wait env ctx (waits w) of
        Some e \<Rightarrow> (LimiterFailed e, w\<lparr>waits := Suc (waits w)\<rparr>)
      | None \<Rightarrow>
          (let r = client_Do env (requests w) request;
               w = w\<lparr>waits := Suc (waits w), requests := Suc (requests w)\<rparr>;
               response = (case r of Inl e \<Rightarrow> None | Inr resp \<Rightarrow> Some resp);
               err = (case r of Inl e \<Rightarrow> Some e | Inr resp \<Rightarrow> None)
           in if is_transient r
              then retry_loop env ctx request msg retries response err
                     (w\<lparr>logged := logged w @ [msg], slept := slept w + 4\<rparr>)
              else (LoopEnd response err, w)))"

text \<open>
  \<open>GetProductsFromQuery\<close>; \<open>search_url\<close> is its \<open>urlString\<close>. The deferred \<open>response.Body.Close()\<close> runs on every path
  after the loop that has a response; the assignment to \<open>err\<close> in the deferred function
  comes after the results are set and does not change them.
\<close>

definition search_url :: "'ctx env \<Rightarrow> string \<Rightarrow> string" where
  "search_url env query =
     ''https://api.itscope.com/2.0/products/search/'' @ QueryEscape env query @
     ''/standard.json?realtime=false&plzproducts=false&page=1&item=0&sort=DEFAULT''"

definition GetProductsFromQuery ::
  "'ctx env \<Rightarrow> ITScopeCommunicator \<Rightarrow> 'ctx \<Rightarrow> string \<Rightarrow> world \<Rightarrow>
   ProductsContainer result \<times> world" where
  "GetProductsFromQuery env its ctx query w =
     (let urlString = search_url env query
      in case NewRequestWithContext env ctx ''GET'' urlString of
           Inl e \<Rightarrow> (Inl (Errorf ''GetProductsFromQuery1: %w'' (Some e)), w)
         | Inr request \<Rightarrow>
        (case authenticateRequest its request of
           Inl e \<Rightarrow> (Inl (Errorf ''GetProductsFromQuery2: %w'' (Some e)), w)
         | Inr request \<Rightarrow>
        (case retry_loop env ctx request ''Error during GetProductsFromQuery, retrying...''
                3 None None w of
           (LimiterFailed e, w) \<Rightarrow> (Inl (Errorf ''limiter timeout: %w'' (Some e)), w)
         | (LoopEnd response err, w) \<Rightarrow>
        (case err of
           Some e \<Rightarrow> (Inl (Errorf ''GetProductsFromQuery: %w'' (Some e)), w)
         | None \<Rightarrow>
        (case response of
           None \<Rightarrow> (Inl (Panic ''nil pointer dereference''), w)
         | Some response \<Rightarrow>
        (let w = w\<lparr>closed_bodies := Suc (closed_bodies w)\<rparr>
         in if StatusCode response = 404 then (Inr \<lparr>Product = []\<rparr>, w)
            else if StatusCode response \<noteq> 200
            then (Inl (NewUnexpectedStatusCodeError response), w)
            else (case Decode_ProductsContainer env (Body response) of
                    Inl e \<Rightarrow> (Inl e, w)
                  | Inr products \<Rightarrow> (Inr products, w))))))))"

text \<open>
  \<open>GetAllProductTypes\<close>. The address is \<open>u.String()\<close> for the \<open>url.URL\<close> built from
  scheme, host and path.
\<close>

definition producttypes_url :: string where
  "producttypes_url = ''https://api.itscope.com/2.0/products/producttypes/producttype.json''"

definition GetAllProductTypes ::
  "'ctx env \<Rightarrow> ITScopeCommunicator \<Rightarrow> 'ctx \<Rightarrow> world \<Rightarrow> ProductType list result \<times> world" where
  "GetAllProductTypes env its ctx w =
     (case NewRequestWithContext env ctx ''GET'' producttypes_url of
        Inl e \<Rightarrow> (Inl (Errorf ''could not retrieve product types: %w'' (Some e)), w)
      | Inr request \<Rightarrow>
     (case authenticateRequest its request of
        Inl e \<Rightarrow> (Inl (Errorf ''could not retrieve product types: %w'' (Some e)), w)
      | Inr request \<Rightarrow>
     (case retry_loop env ctx request ''Error during GetAllProductTypes, retrying...''
             3 None None w of
        (LimiterFailed e, w) \<Rightarrow> (Inl (Errorf ''limiter timeout: %w'' (Some e)), w)
      | (LoopEnd response err, w) \<Rightarrow>
     (case err of
        Some e \<Rightarrow> (Inl (Errorf ''could not retrieve product types: %w'' (Some e)), w)
      | None \<Rightarrow>
     (case response of
        None \<Rightarrow> (Inl (Panic ''nil pointer dereference''), w)
      | Some response \<Rightarrow>
     (let w = w\<lparr>closed_bodies := Suc (closed_bodies w)\<rparr>
      in if StatusCode response = 404 then (Inr [], w)
         else if StatusCode response \<noteq> 200
         then (Inl (NewUnexpectedStatusCodeError response), w)
         else (case Decode_ProductTypesContainer env (Body response) of
                 Inl e \<Rightarrow>
                   (Inl (Errorf ''could not retrieve product types: %w'' (Some e)), w)
               | Inr productTypes \<Rightarrow> (Inr (ProductTypes productTypes), w))))))))"

text \<open>\<open>GetProductData\<close>: \<open>None\<close> is the nil \<open>*Product\<close>.\<close>

definition GetProductData ::
  "'ctx env \<Rightarrow> ITScopeCommunicator \<Rightarrow> 'ctx \<Rightarrow> string \<Rightarrow> world \<Rightarrow>
   Product option result \<times> world" where
  "GetProductData env its ctx productSKU w =
     (case GetProductsFromQuery env its ctx (''distpid='' @ productSKU) w of
        (Inl err, w) \<Rightarrow> (Inl (Errorf ''could not retrieve product data: %w'' (Some err)), w)
      | (Inr productContainer, w) \<Rightarrow>
          (if length (Product productContainer) > 0
           then (Inr (Some (hd (Product productContainer))), w)
           else (Inr None, w)))"

section \<open>The fan-out aggregator\<close>

text \<open>
  The repository holds two variants of the aggregator. The first is the one of the client
  with limiter and retry loop, which runs the queries one after the other; the second, in
  itscope.go, starts one goroutine for each query under an \<open>errgroup\<close> and follows
  further below.

  The \<open>range queryStrings\<close> loop of \<open>GetProductAccessoriesFromList\<close>: one query after the
  other, \<open>return nil, err\<close> at the first error, the products appended to
  \<open>productList\<close> otherwise.
\<close>

fun GetProductAccessoriesFromList_loop ::
  "'ctx env \<Rightarrow> ITScopeCommunicator \<Rightarrow> 'ctx \<Rightarrow> string list \<Rightarrow> Product list \<Rightarrow> world \<Rightarrow>
   Product list result \<times> world" where
  "GetProductAccessoriesFromList_loop env its ctx [] productList w = (Inr productList, w)"
| "GetProductAccessoriesFromList_loop env its ctx (query # queryStrings) productList w =
     (case GetProductsFromQuery env its ctx query w of
        (Inl err, w) \<Rightarrow> (Inl err, w)
      | (Inr product, w) \<Rightarrow>
          GetProductAccessoriesFromList_loop env its ctx queryStrings
            (productList @ Product product) w)"

text \<open>A nil slice and an empty slice are both the empty list.\<close>

definition GetProductAccessoriesFromList ::
  "'ctx env \<Rightarrow> ITScopeCommunicator \<Rightarrow> 'ctx \<Rightarrow> string list \<Rightarrow> world \<Rightarrow>
   Product list result \<times> world" where
  "GetProductAccessoriesFromList env its ctx products w =
     (if length products = 0 then (Inr [], w)
      else (case createQueryStrings products 50 of
              Inl e \<Rightarrow> (Inl e, w)
            | Inr queryStrings \<Rightarrow>
                GetProductAccessoriesFromList_loop env its ctx queryStrings [] w))"

text \<open>
  To speak about the single groups of one run: the world in which the \<open>k\<close>-th query is
  issued when the queries before it have been run in order, and what that query returns.
\<close>

definition world_before ::
  "'ctx env \<Rightarrow> ITScopeCommunicator \<Rightarrow> 'ctx \<Rightarrow> string list \<Rightarrow> world \<Rightarrow> nat \<Rightarrow> world" where
  "world_before env its ctx queryStrings w k =
     foldl (\<lambda>w query. snd (GetProductsFromQuery env its ctx query w)) w (take k queryStrings)"

definition group_result ::
  "'ctx env \<Rightarrow> ITScopeCommunicator \<Rightarrow> 'ctx \<Rightarrow> string list \<Rightarrow> world \<Rightarrow> nat \<Rightarrow>
   ProductsContainer result" where
  "group_result env its ctx queryStrings w k =
     fst (GetProductsFromQuery env its ctx (queryStrings ! k)
            (world_before env its ctx queryStrings w k))"

subsection \<open>The variant of itscope.go\<close>

text \<open>
  \<open>GetProductsFromQuery\<close> as itscope.go has it: no limiter and no retry, one request, the
  errors of \<open>NewRequestWithContext\<close>, \<open>authenticateRequest\<close> and the decoder returned as
  they are, and \<open>fmt.Errorf(response.Status)\<close> for a status other than 200 and 404.
\<close>

definition GetProductsFromQuery_itscope ::
  "'ctx env \<Rightarrow> ITScopeCommunicator \<Rightarrow> 'ctx \<Rightarrow> string \<Rightarrow> world \<Rightarrow>
   ProductsContainer result \<times> world" where
  "GetProductsFromQuery_itscope env its ctx query w =
     (let urlString = search_url env query
      in case NewRequestWithContext env ctx ''GET'' urlString of
           Inl err \<Rightarrow> (Inl err, w)
         | Inr request \<Rightarrow>
        (case authenticateRequest its request of
           Inl err \<Rightarrow> (Inl err, w)
         | Inr request \<Rightarrow>
        (case client_Do env (requests w) request of
           Inl err \<Rightarrow>
             (Inl (Errorf ''product query: %w'' (Some err)), w\<lparr>requests := Suc (requests w)\<rparr>)
         | Inr response \<Rightarrow>
        (let w = w\<lparr>requests := Suc (requests w), closed_bodies := Suc (closed_bodies w)\<rparr>
         in if StatusCode response = 404 then (Inr \<lparr>Product = []\<rparr>, w)
            else if StatusCode response \<noteq> 200
            then (Inl (Errorf (Status response) None), w)
            else (case Decode_ProductsContainer env (Body response) of
                    Inl err \<Rightarrow> (Inl err, w)
                  | Inr products \<Rightarrow> (Inr products, w))))))"

text \<open>
  The function handed to \<open>wg.Go\<close>. It works on the variable \<open>productList\<close>, which the
  goroutines share under \<open>requestedProductsLock\<close>, and on the error of the group: an
  \<open>errgroup\<close> keeps the first error that one of its functions returns.
\<close>

definition goroutine ::
  "'ctx env \<Rightarrow> ITScopeCommunicator \<Rightarrow> 'ctx \<Rightarrow> string \<Rightarrow>
   (Product list \<times> error option) \<times> world \<Rightarrow> (Product list \<times> error option) \<times> world" where
  "goroutine env its gCtx query state =
     (case state of ((productList, group_err), w) \<Rightarrow>
        (case GetProductsFromQuery_itscope env its gCtx query w of
           (Inl err, w) \<Rightarrow>
             ((productList, (case group_err of None \<Rightarrow> Some err | Some e \<Rightarrow> Some e)), w)
         | (Inr product, w) \<Rightarrow> ((productList @ Product product, group_err), w)))"

text \<open>
  The goroutines run concurrently. The model covers the runs in which they take turns, each
  from its request to its return: \<open>sched\<close> lists the groups in the order in which their
  goroutines run. Every group runs once. The semaphore of capacity 20 lets the loop start a
  goroutine only while fewer than 20 are unfinished, so the group that runs at position
  \<open>i\<close>, when \<open>i\<close> goroutines have finished, has an index below \<open>i + 20\<close>.
\<close>

definition admissible :: "nat list \<Rightarrow> nat \<Rightarrow> bool" where
  "admissible sched n \<longleftrightarrow>
     mset sched = mset [0..<n] \<and> list_all (\<lambda>(i, k). k < i + 20) (enumerate 0 sched)"

text \<open>
  \<open>GetProductAccessoriesFromList\<close> of itscope.go, for a schedule. The function returns two
  values, \<open>productList\<close> as it is when \<open>wg.Wait()\<close> has returned and the error of
  \<open>wg.Wait()\<close>; the result is this pair. \<open>gCtx\<close> is the context that
  \<open>errgroup.WithContext(ctx)\<close> returns; what a request under it is answered, also after
  its cancellation, is the answer of \<open>client_Do\<close>.
\<close>

definition GetProductAccessoriesFromList_itscope ::
  "'ctx env \<Rightarrow> ITScopeCommunicator \<Rightarrow> 'ctx \<Rightarrow> nat list \<Rightarrow> string list \<Rightarrow> world \<Rightarrow>
   (Product list \<times> error option) \<times> world" where
  "GetProductAccessoriesFromList_itscope env its gCtx sched products w =
     (if length products = 0 then (([], None), w)
      else (case createQueryStrings products 50 of
              Inl e \<Rightarrow> (([], Some e), w)
            | Inr queryStrings \<Rightarrow>
                fold (\<lambda>k. goroutine env its gCtx (queryStrings ! k)) sched (([], None), w)))"

section \<open>The product assembler\<close>

definition GetProductAccessories ::
  "'ctx env \<Rightarrow> ITScopeCommunicator \<Rightarrow> 'ctx \<Rightarrow> Product \<Rightarrow> world \<Rightarrow>
   Product list result \<times> world" where
  "GetProductAccessories env its ctx product w =
     (let accessoryIds = map ReferencedProductID (Accessories product)
      in case GetProductAccessoriesFromList env its ctx accessoryIds w of
           (Inl err, w) \<Rightarrow> (Inl (Errorf ''GetProductAccessories: %w'' (Some err)), w)
         | (Inr accessories, w) \<Rightarrow> (Inr accessories, w))"

definition FilterProductTypesByGroupId :: "string \<Rightarrow> ProductType list \<Rightarrow> ProductType list" where
  "FilterProductTypesByGroupId groupId productTypes =
     filter (\<lambda>productType. GroupID (ProductTypeGroup productType) = groupId) productTypes"

text \<open>
  The condition under which \<open>FilterProductsByTypeList\<close> stores a product, and its two
  nested \<open>range\<close> loops. The Go map \<open>filteredProducts\<close> is an association list with
  one entry for each key: an assignment to a key that is present replaces its value.
\<close>

definition type_matches :: "Product \<Rightarrow> ProductType \<Rightarrow> bool" where
  "type_matches product productType \<longleftrightarrow>
     ProductTypeID product = ID productType \<and> ProductTypeID product \<noteq> [] \<and>
     GroupID (ProductTypeGroup productType) \<noteq> []"

definition filteredProducts_of ::
  "Product list \<Rightarrow> ProductType list \<Rightarrow> (string \<times> Product) list" where
  "filteredProducts_of products typeList =
     fold (\<lambda>productType.
             fold (\<lambda>product filteredProducts.
                     if type_matches product productType
                     then AList.update (Puid product) product filteredProducts
                     else filteredProducts)
               products)
       typeList []"

text \<open>
  The products in the order in which the two loops assign them to the map, and the
  assignment \<open>filteredProducts[product.Puid] = product\<close> itself.
\<close>

definition assignments :: "Product list \<Rightarrow> ProductType list \<Rightarrow> Product list" where
  "assignments products typeList =
     concat (map (\<lambda>productType. filter (\<lambda>product. type_matches product productType) products)
               typeList)"

definition store :: "Product \<Rightarrow> (string \<times> Product) list \<Rightarrow> (string \<times> Product) list" where
  "store product filteredProducts = AList.update (Puid product) product filteredProducts"

text \<open>
  \<open>FilterProductsByTypeList\<close>: the values of the map, in the order in which \<open>range\<close>
  visits its entries.
\<close>

definition FilterProductsByTypeList ::
  "'ctx env \<Rightarrow> Product list \<Rightarrow> ProductType list \<Rightarrow> Product list" where
  "FilterProductsByTypeList env products typeList =
     map snd (map_range env (filteredProducts_of products typeList))"

definition GetServiceTypeAccessoriesOfProduct ::
  "'ctx env \<Rightarrow> ITScopeCommunicator \<Rightarrow> 'ctx \<Rightarrow> Product \<Rightarrow> world \<Rightarrow>
   Product list result \<times> world" where
  "GetServiceTypeAccessoriesOfProduct env its ctx product w =
     (case GetAllProductTypes env its ctx w of
        (Inl err, w) \<Rightarrow>
          (Inl (Errorf ''GetServiceTypeAccessoriesOfProduct: %w'' (Some err)), w)
      | (Inr productTypes, w) \<Rightarrow>
     (case GetProductAccessories env its ctx product w of
        (Inl err, w) \<Rightarrow>
          (Inl (Errorf ''GetServiceTypeAccessoriesOfProduct: %w'' (Some err)), w)
      | (Inr accessories, w) \<Rightarrow>
          (let serviceTypes = FilterProductTypesByGroupId ''SSP'' productTypes
           in (Inr (FilterProductsByTypeList env accessories serviceTypes), w))))"

section \<open>An example environment\<close>

text \<open>
  A concrete environment, client and world on which the operations can be evaluated: every
  request can be built, the limiter always grants a token, the \<open>k\<close>-th request is
  answered by the \<open>k\<close>-th entry of a script (and refused once the script is used up),
  and the decoders know a few bodies.
\<close>

definition world0 :: world where
  "world0 = \<lparr>waits = 0, requests = 0, slept = 0, closed_bodies = 0, logged = []\<rparr>"

definition product_X :: Product where
  "product_X = \<lparr>Puid = ''X'', ProductTypeID = ''T1'', Image1 = [], Image2 = [],
                  Image3 = [], Image4 = [], Image5 = [], Accessories = []\<rparr>"

definition product_X2 :: Product where
  "product_X2 = \<lparr>Puid = ''X'', ProductTypeID = ''T1'', Image1 = ''x.png'', Image2 = [],
                  Image3 = [], Image4 = [], Image5 = [], Accessories = []\<rparr>"

definition product_Y :: Product where
  "product_Y = \<lparr>Puid = ''Y'', ProductTypeID = ''T2'', Image1 = [], Image2 = [],
                  Image3 = [], Image4 = [], Image5 = [], Accessories = []\<rparr>"

definition product_P :: Product where
  "product_P = \<lparr>Puid = ''P'', ProductTypeID = ''T2'', Image1 = [], Image2 = [],
                  Image3 = [], Image4 = [], Image5 = [],
                  Accessories = [\<lparr>ReferencedProductID = ''X''\<rparr>,
                                 \<lparr>ReferencedProductID = ''Y''\<rparr>,
                                 \<lparr>ReferencedProductID = ''X''\<rparr>]\<rparr>"

definition demo_decode :: "string \<Rightarrow> ProductsContainer result" where
  "demo_decode body =
     (if body = ''X'' then Inr \<lparr>Product = [product_X]\<rparr>
      else if body = ''empty'' then Inr \<lparr>Product = []\<rparr>
      else if body = ''accessories'' then Inr \<lparr>Product = [product_X, product_Y, product_X2]\<rparr>
      else Inl (LibError ''unexpected end of JSON input''))"

definition demo_decode_types :: "string \<Rightarrow> ProductTypesContainer result" where
  "demo_decode_types body =
     (if body = ''types''
      then Inr \<lparr>ProductTypes =
                 [\<lparr>ID = ''T1'', ProductTypeGroup = \<lparr>GroupID = ''SSP''\<rparr>\<rparr>,
                  \<lparr>ID = ''T2'', ProductTypeGroup = \<lparr>GroupID = ''HW''\<rparr>\<rparr>]\<rparr>
      else Inl (LibError ''unexpected end of JSON input''))"

definition demo_env :: "Response result list \<Rightarrow> unit env" where
  "demo_env script =
     \<lparr>NewRequestWithContext =
        (\<lambda>ctx method url. Inr \<lparr>Method = method, URL = url, BasicAuth = None, Header = []\<rparr>),
      QueryEscape = (\<lambda>s. s),
      limiter_Wait = (\<lambda>ctx k. None),
      client_Do = (\<lambda>k request.
        if k < length script then script ! k else Inl (LibError ''connection refused'')),
      Decode_ProductsContainer = demo_decode,
      Decode_ProductTypesContainer = demo_decode_types,
      map_range = rev\<rparr>"

definition demo_its :: ITScopeCommunicator where
  "demo_its = New ''acme'' ''user'' ''secret'' ''de''"

definition status :: "int \<Rightarrow> string \<Rightarrow> string \<Rightarrow> Response result" where
  "status code text body = Inr \<lparr>StatusCode = code, Status = text, Body = body\<rparr>"

definition demo_request :: "string \<Rightarrow> Request" where
  "demo_request url =
     \<lparr>Method = ''GET'', URL = url, BasicAuth = Some (''user'', ''secret''),
      Header = [(''Accept'', ''application/json''), (''UserAgent'', ''acme-ITS_ApiModule-0.1''),
                (''Accept-Language'', ''de'')]\<rparr>"

definition demo_ids :: "string list" where
  "demo_ids = replicate 50 ''a'' @ [''z'']"

section \<open>Properties of the batcher\<close>

lemma loop_step:
  assumes L: "0 < len" and lo: "(pages - 1) * len \<le> int (length ids)"
    and hi: "int (length ids) \<le> pages * len" and k: "int (Suc k) \<le> pages"
  shows "(if int (Suc k) = pages then slice_from ids ((int (Suc k) - 1) * len)
          else slice_from_to ids ((int (Suc k) - 1) * len) (int (Suc k) * len))
         = Inr (chunk ids len k)"
proof -
  define l where "l = nat len"
  have len: "len = int l" and l: "0 < l" using L by (simp_all add: l_def)
  define p where "p = nat pages"
  have pages: "pages = int p" and p: "Suc k \<le> p" using k by (simp_all add: p_def)
  have "int (p - 1) = int p - 1" using p by simp
  then have "int ((p - 1) * l) = (int p - 1) * int l" by (simp only: of_nat_mult)
  then have "int ((p - 1) * l) \<le> int (length ids)" using lo unfolding len pages by (simp only:)
  then have lo': "(p - 1) * l \<le> length ids" by (simp only: of_nat_le_iff)
  have hi': "length ids \<le> p * l"
    using hi unfolding len pages by (simp flip: of_nat_mult)
  have e1: "(int (Suc k) - 1) * len = int (k * l)" by (simp add: len)
  have e2: "int (Suc k) * len = int (Suc k * l)" by (simp only: len of_nat_mult)
  have c: "(int (Suc k) = pages) = (Suc k = p)" unfolding pages by (simp only: of_nat_eq_iff)
  have nl: "nat len = l" by (simp add: l_def)
  have "(if Suc k = p then slice_from ids (int (k * l))
         else slice_from_to ids (int (k * l)) (int (Suc k * l))) = Inr (chunk ids len k)"
  proof (cases "Suc k = p")
    case True
    have "length ids - k * l \<le> l" using hi' True [symmetric] by simp
    moreover have "k * l \<le> length ids" using lo' True [symmetric] by simp
    ultimately show ?thesis using True
      by (simp add: slice_from_def chunk_def nl del: of_nat_mult)
  next
    case False
    then have "Suc k \<le> p - 1" using p by simp
    then have "Suc k * l \<le> (p - 1) * l" by (rule mult_le_mono1)
    then have "Suc k * l \<le> length ids" using lo' by simp
    moreover have "nat (int (Suc k * l) - int (k * l)) = l" by simp
    ultimately show ?thesis using False
      by (simp add: slice_from_to_def chunk_def nl del: of_nat_mult of_nat_add of_nat_Suc mult_Suc)
  qed
  then show ?thesis unfolding e1 e2 c .
qed

lemma loop_chunks:
  assumes L: "0 < len" and lo: "(pages - 1) * len \<le> int (length ids)"
    and hi: "int (length ids) \<le> pages * len" and k: "int k \<le> pages"
  shows "createQueryStrings_loop ids len pages (int k) acc =
           Inr (acc @ map (\<lambda>j. queryString (chunk ids len j)) (rev [0..<k]))"
  using k
proof (induction k arbitrary: acc)
  case 0
  show ?case by (simp add: createQueryStrings_loop.simps)
next
  case (Suc k)
  have kp: "int k \<le> pages" using Suc.prems by simp
  have "createQueryStrings_loop ids len pages (int (Suc k)) acc =
        createQueryStrings_loop ids len pages (int k) (acc @ [queryString (chunk ids len k)])"
  proof -
    have a: "int (Suc k) > 0" and b: "int (Suc k) - 1 = int k" by simp_all
    show ?thesis
      by (subst createQueryStrings_loop.simps)
        (simp only: a b if_True Let_def loop_step [OF L lo hi Suc.prems, unfolded b] sum.case)
  qed
  then show ?case using Suc.IH [OF kp] by simp
qed


lemma sdiv_nat: "int n sdiv int l = int (n div l)"
  by (simp add: signed_divide_int_def sgn_if zdiv_int)

lemma smod_nat: "int n smod int l = int (n mod l)"
  by (simp add: signed_modulo_int_def sgn_if zmod_int)

lemma createQueryStrings_chunks:
  assumes L: "0 < len"
  shows "createQueryStrings ids len =
           Inr (map (\<lambda>j. queryString (chunk ids len j)) (rev [0..<page_count ids len]))"
proof -
  define l where "l = nat len"
  have len: "len = int l" and l: "0 < l" using L by (simp_all add: l_def)
  define n where "n = length ids"
  define p where "p = page_count ids len"
  have p: "p = n div l + (if n mod l > 0 then 1 else 0)"
    by (simp add: p_def page_count_def n_def l_def)
  have pages: "(let pages = int (length ids) sdiv len;
                    pages = (if int (length ids) smod len > 0 then pages + 1 else pages)
                in pages) = int p"
    unfolding len sdiv_nat smod_nat n_def [symmetric] p by (simp add: Let_def)
  have dm: "n = n div l * l + n mod l" by simp
  have lo: "(int p - 1) * len \<le> int (length ids)"
  proof (cases "n mod l > 0")
    case True
    then have "int p - 1 = int (n div l)" by (simp add: p)
    moreover have "n div l * l \<le> n" by simp
    ultimately show ?thesis unfolding len n_def [symmetric]
      by (metis of_nat_le_iff of_nat_mult)
  next
    case False
    then have "p = n div l" by (simp add: p)
    then have "p * l \<le> n" by simp
    then have "int p * int l \<le> int n" by (metis of_nat_le_iff of_nat_mult)
    then show ?thesis unfolding len n_def [symmetric] using l
      by (simp add: algebra_simps)
  qed
  have hi: "int (length ids) \<le> int p * len"
  proof -
    have "n \<le> p * l"
    proof (cases "n mod l > 0")
      case True
      have "n mod l < l" using l by simp
      moreover have "n div l * l + n mod l = n" by simp
      ultimately have "n \<le> n div l * l + l" by linarith
      then show ?thesis using True by (simp add: p)
    next
      case False
      moreover have "n div l * l + n mod l = n" by simp
      ultimately have "n \<le> n div l * l" by linarith
      then show ?thesis using False by (simp add: p)
    qed
    then show ?thesis unfolding len n_def [symmetric] by (metis of_nat_le_iff of_nat_mult)
  qed
  have "createQueryStrings ids len = createQueryStrings_loop ids len (int p) (int p) []"
    using L pages by (simp add: createQueryStrings_def Let_def)
  then show ?thesis using loop_chunks [OF L lo hi, of p "[]"] by (simp add: p_def)
qed

lemma page_count_ceiling:
  assumes L: "0 < len"
  shows "int (page_count ids len) = \<lceil>real (length ids) / real_of_int len\<rceil>"
proof -
  define l where "l = nat len"
  have len: "len = int l" and l: "0 < l" using L by (simp_all add: l_def)
  define n where "n = length ids"
  have "\<lceil>real n / real_of_int len\<rceil> = \<lceil>(of_int (int n) :: real) / of_int len\<rceil>" by simp
  also have "\<dots> = - (- int n div len)" by (rule ceiling_divide_eq_div)
  also have "\<dots> = int (n div l) + (if n mod l > 0 then 1 else 0)"
  proof -
    have nz: "int l \<noteq> 0" using l by simp
    have m: "(int n mod int l = 0) = (n mod l = 0)"
      by (metis of_nat_eq_0_iff zmod_int)
    have d: "int n div int l = int (n div l)" by (simp add: zdiv_int)
    show ?thesis unfolding len zdiv_zminus1_eq_if [OF nz] m d by simp
  qed
  also have "\<dots> = int (page_count ids len)"
    by (simp add: page_count_def n_def l_def)
  finally show ?thesis by (simp add: n_def)
qed

lemma concat_chunks:
  "concat (map (\<lambda>j. take l (drop (j * l) xs)) [0..<p]) = take (p * l) xs"
proof (induction p)
  case 0
  show ?case by simp
next
  case (Suc p)
  have "take (p * l) xs @ take l (drop (p * l) xs) = take (p * l + l) xs"
    by (simp add: take_add)
  then show ?case using Suc.IH by (simp add: add.commute)
qed

lemma page_count_bounds:
  assumes L: "0 < len"
  shows "length ids \<le> page_count ids len * nat len"
    and "(page_count ids len - 1) * nat len \<le> length ids"
    and "ids \<noteq> [] \<Longrightarrow> (page_count ids len - 1) * nat len < length ids"
proof -
  define l where "l = nat len"
  define n where "n = length ids"
  define q where "q = n div l * l"
  define r where "r = n mod l"
  have l: "0 < l" using L by (simp add: l_def)
  have dm: "q + r = n" by (simp add: q_def r_def)
  have r: "r < l" using l by (simp add: r_def)
  show "length ids \<le> page_count ids len * nat len"
  proof (cases "0 < r")
    case True
    then have "page_count ids len * nat len = q + l"
      by (simp add: page_count_def q_def r_def l_def n_def algebra_simps)
    then show ?thesis using dm r by (simp add: n_def)
  next
    case False
    then have "page_count ids len * nat len = q"
      by (simp add: page_count_def q_def r_def l_def n_def)
    then show ?thesis using dm False by (simp add: n_def)
  qed
  have lo: "(page_count ids len - 1) * nat len \<le> n \<and> (0 < n \<longrightarrow> (page_count ids len - 1) * nat len < n)"
  proof (cases "0 < r")
    case True
    then have "(page_count ids len - 1) * nat len = q"
      by (simp add: page_count_def q_def r_def l_def n_def)
    then show ?thesis using dm True by simp
  next
    case False
    then have pc: "page_count ids len = n div l"
      by (simp add: page_count_def r_def l_def n_def)
    have "(n div l - 1) * l = q - l" by (simp add: q_def diff_mult_distrib)
    moreover have "0 < n \<Longrightarrow> 0 < q" using dm False by simp
    ultimately show ?thesis using dm False l unfolding pc l_def [symmetric] by auto
  qed
  then show "(page_count ids len - 1) * nat len \<le> length ids" by (simp add: n_def)
  show "ids \<noteq> [] \<Longrightarrow> (page_count ids len - 1) * nat len < length ids"
    using lo by (simp add: n_def)
qed

text \<open>
  Claim C1. For every identifier list and every positive batch length, \<open>createQueryStrings\<close>
  returns the query strings of a sequence of groups such that: the number of groups is
  \<open>\<lceil>n / length\<rceil>\<close>; the groups, read from the last to the first, are consecutive
  segments that make up the input, so every identifier (every position of the input) lies in
  exactly one group; every group is non-empty and has at most \<open>length\<close> identifiers. For
  the empty input the result is the empty sequence.
\<close>

theorem createQueryStrings_partition:
  assumes L: "0 < len"
  shows "\<exists>groups.
           createQueryStrings productIDs len = Inr (map queryString groups) \<and>
           int (length groups) = \<lceil>real (length productIDs) / real_of_int len\<rceil> \<and>
           concat (rev groups) = productIDs \<and>
           (\<forall>g \<in> set groups. g \<noteq> [] \<and> int (length g) \<le> len) \<and>
           (productIDs = [] \<longrightarrow> createQueryStrings productIDs len = Inr [])"
proof -
  define p where "p = page_count productIDs len"
  define groups where "groups = map (chunk productIDs len) (rev [0..<p])"
  have out: "createQueryStrings productIDs len = Inr (map queryString groups)"
    using createQueryStrings_chunks [OF L, of productIDs]
    by (simp add: groups_def p_def comp_def)
  have count: "int (length groups) = \<lceil>real (length productIDs) / real_of_int len\<rceil>"
    using page_count_ceiling [OF L, of productIDs] by (simp add: groups_def p_def)
  have "concat (rev groups) = take (p * nat len) productIDs"
    using concat_chunks [of "nat len" productIDs p]
    by (simp add: groups_def rev_map chunk_def [abs_def])
  then have cover: "concat (rev groups) = productIDs"
    using page_count_bounds(1) [OF L, of productIDs] by (simp add: p_def)
  have size: "\<forall>g \<in> set groups. g \<noteq> [] \<and> int (length g) \<le> len"
  proof
    fix g assume "g \<in> set groups"
    then obtain j where j: "j < p" and g: "g = chunk productIDs len j"
      by (auto simp: groups_def)
    have ne: "productIDs \<noteq> []" using j by (auto simp: p_def page_count_def)
    have "j \<le> p - 1" using j by simp
    then have "j * nat len \<le> (p - 1) * nat len" by (rule mult_le_mono1)
    moreover have "(p - 1) * nat len < length productIDs"
      using page_count_bounds(3) [OF L ne] by (simp add: p_def)
    ultimately have "j * nat len < length productIDs" by (rule le_less_trans)
    then show "g \<noteq> [] \<and> int (length g) \<le> len"
      using L by (simp add: g chunk_def)
  qed
  have empty: "productIDs = [] \<longrightarrow> createQueryStrings productIDs len = Inr []"
  proof
    assume "productIDs = []"
    then have "groups = []" by (simp add: groups_def p_def page_count_def)
    then show "createQueryStrings productIDs len = Inr []" using out by simp
  qed
  show ?thesis using out count cover size empty by blast
qed


theorem createQueryStrings_partition_witness:
  "(0::int) < 2 \<and>
   createQueryStrings [''a'', ''b'', ''c''] 2 = Inr [''id=c'', ''id=a;id=b''] \<and>
   (\<exists>groups.
      createQueryStrings [''a'', ''b'', ''c''] 2 = Inr (map queryString groups) \<and>
      int (length groups) = \<lceil>real (length [''a'', ''b'', ''c'']) / real_of_int 2\<rceil> \<and>
      concat (rev groups) = [''a'', ''b'', ''c''] \<and>
      (\<forall>g \<in> set groups. g \<noteq> [] \<and> int (length g) \<le> 2))"
proof -
  have "createQueryStrings [''a'', ''b'', ''c''] 2 = Inr [''id=c'', ''id=a;id=b'']"
    by (simp add: createQueryStrings_def createQueryStrings_loop.simps slice_from_def
        slice_from_to_def queryString_def signed_divide_int_def signed_modulo_int_def Let_def)
  then show ?thesis
    using createQueryStrings_partition [of 2 "[''a'', ''b'', ''c'']"] by simp
qed

text \<open>
  Claim C6. When the input is non-empty and its length is not a multiple of the batch
  length, the first group is the tail chunk, the last \<open>n mod length\<close> identifiers of the
  input; the group at position \<open>k\<close> of the result starts at index
  \<open>(pages - 1 - k) * length\<close>, so the start indices decrease along the result, and the last
  group is the head chunk.
\<close>

theorem createQueryStrings_tail_first:
  assumes L: "0 < len" and ne: "productIDs \<noteq> []"
    and rem: "\<not> len dvd int (length productIDs)"
  shows "\<exists>groups.
           createQueryStrings productIDs len = Inr (map queryString groups) \<and>
           groups \<noteq> [] \<and>
           hd groups = drop (length productIDs - length productIDs mod nat len) productIDs \<and>
           length (hd groups) = length productIDs mod nat len \<and>
           (\<forall>k < length groups.
              groups ! k = take (nat len) (drop ((length groups - 1 - k) * nat len) productIDs)) \<and>
           last groups = take (nat len) productIDs"
proof -
  define p where "p = page_count productIDs len"
  define groups where "groups = map (chunk productIDs len) (rev [0..<p])"
  define l where "l = nat len"
  define n where "n = length productIDs"
  have len: "len = int l" and l: "0 < l" using L by (simp_all add: l_def)
  have "\<not> int l dvd int n" using rem unfolding len n_def .
  then have "\<not> l dvd n" unfolding int_dvd_int_iff .
  then have r: "0 < n mod l" by (simp add: dvd_eq_mod_eq_0)
  have p: "p = Suc (n div l)" using r by (simp add: p_def page_count_def l_def n_def)
  have out: "createQueryStrings productIDs len = Inr (map queryString groups)"
    using createQueryStrings_chunks [OF L, of productIDs]
    by (simp add: groups_def p_def comp_def)
  have nonempty: "groups \<noteq> []" by (simp add: groups_def p)
  have nth: "\<forall>k < length groups.
      groups ! k = take (nat len) (drop ((length groups - 1 - k) * nat len) productIDs)"
    by (simp add: groups_def rev_nth chunk_def)
  have "hd groups = chunk productIDs len (n div l)"
    by (simp add: groups_def p hd_map hd_rev)
  moreover have "n div l * l = n - n mod l" by (simp add: minus_mod_eq_div_mult)
  ultimately have hd: "hd groups = drop (n - n mod l) productIDs"
    using l by (simp add: chunk_def l_def [symmetric] n_def [symmetric])
  have hdlen: "length (hd groups) = n mod l" unfolding hd by (simp add: n_def)
  have "last groups = chunk productIDs len 0"
    by (simp add: groups_def p last_map last_rev del: upt_Suc)
  then have last: "last groups = take (nat len) productIDs" by (simp add: chunk_def)
  show ?thesis
    using out nonempty hd hdlen nth last unfolding n_def l_def by blast
qed

theorem createQueryStrings_tail_first_witness:
  "(0::int) < 2 \<and> [''a'', ''b'', ''c''] \<noteq> [] \<and> \<not> (2::int) dvd int (length [''a'', ''b'', ''c'']) \<and>
   (\<exists>groups.
      createQueryStrings [''a'', ''b'', ''c''] 2 = Inr (map queryString groups) \<and>
      groups \<noteq> [] \<and> hd groups = [''c''] \<and> last groups = [''a'', ''b''])"
  using createQueryStrings_tail_first [of 2 "[''a'', ''b'', ''c'']"] by simp blast

section \<open>Properties of the query executor\<close>

text \<open>
  Each round of the loop sends at most one request, so the loop sends at most \<open>retries\<close>.
\<close>

lemma retry_loop_requests:
  "requests w \<le> requests (snd (retry_loop env ctx request msg n response err w)) \<and>
   requests (snd (retry_loop env ctx request msg n response err w)) \<le> requests w + n"
proof (induction n arbitrary: response err w)
  case 0
  show ?case by simp
next
  case (Suc n)
  show ?case
  proof (cases "limiter_Wait env ctx (waits w)")
    case (Some e)
    then show ?thesis by simp
  next
    case None
    show ?thesis
    proof (cases "is_transient (client_Do env (requests w) request)")
      case True
      let ?w = "w\<lparr>waits := Suc (waits w), requests := Suc (requests w),
                  logged := logged w @ [msg], slept := slept w + 4\<rparr>"
      have "requests ?w = Suc (requests w)" by simp
      then show ?thesis using None True Suc.IH [where w = ?w]
        by (simp add: Let_def) (metis Suc_leD add_Suc_shift)
    next
      case False
      then show ?thesis using None by (simp add: Let_def)
    qed
  qed
qed

lemma GetProductsFromQuery_world:
  "snd (GetProductsFromQuery env its ctx query w) = w \<or>
   (\<exists>request x w'. retry_loop env ctx request ''Error during GetProductsFromQuery, retrying...''
        3 None None w = (x, w') \<and>
      (snd (GetProductsFromQuery env its ctx query w) = w' \<or>
       snd (GetProductsFromQuery env its ctx query w) = w'\<lparr>closed_bodies := Suc (closed_bodies w')\<rparr>))"
  by (auto simp: GetProductsFromQuery_def Let_def
      split: sum.splits prod.splits loop_exit.splits option.splits)

lemma GetProductsFromQuery_at_most_three:
  "requests w \<le> requests (snd (GetProductsFromQuery env its ctx query w)) \<and>
   requests (snd (GetProductsFromQuery env its ctx query w)) \<le> requests w + 3"
proof -
  have *: "requests w \<le> requests w' \<and> requests w' \<le> requests w + 3"
    if "retry_loop env ctx request msg 3 None None w = (x, w')" for request msg x w'
    using retry_loop_requests [of w env ctx request msg 3 None None] that by simp
  show ?thesis
    using GetProductsFromQuery_world [of env its ctx query w] * by (elim disjE exE conjE) auto
qed

text \<open>
  What \<open>GetProductsFromQuery\<close> does once the loop has ended with a response.
\<close>

lemma after_loop:
  assumes req: "NewRequestWithContext env ctx ''GET'' (search_url env query) = Inr request0"
    and auth: "authenticateRequest its request0 = Inr request"
    and loop: "retry_loop env ctx request ''Error during GetProductsFromQuery, retrying...''
                 3 None None w = (LoopEnd (Some response) None, w')"
  shows "GetProductsFromQuery env its ctx query w =
     (let w = w'\<lparr>closed_bodies := Suc (closed_bodies w')\<rparr>
         in if StatusCode response = 404 then (Inr \<lparr>Product = []\<rparr>, w)
            else if StatusCode response \<noteq> 200
            then (Inl (NewUnexpectedStatusCodeError response), w)
            else (case Decode_ProductsContainer env (Body response) of
                    Inl e \<Rightarrow> (Inl e, w)
                  | Inr products \<Rightarrow> (Inr products, w)))"
  using req auth loop by (simp add: GetProductsFromQuery_def Let_def)

text \<open>
  The loop after \<open>k\<close> transient attempts and a final answer (status 200 or 404) at attempt
  \<open>k < 3\<close>, the limiter granting every token.
\<close>

lemma retry_loop_answer:
  assumes k: "k < 3"
    and lim: "\<forall>j\<le>k. limiter_Wait env ctx (waits w + j) = None"
    and tr: "\<forall>j<k. is_transient (client_Do env (requests w + j) request)"
    and ans: "client_Do env (requests w + k) request = Inr response"
    and st: "StatusCode response = 200 \<or> StatusCode response = 404"
  shows "\<exists>w'. retry_loop env ctx request msg 3 None None w = (LoopEnd (Some response) None, w') \<and>
              requests w' = requests w + k + 1 \<and> slept w' = slept w + 4 * k \<and>
              length (logged w') = length (logged w) + k"
proof -
  have nt: "\<not> is_transient (client_Do env (requests w + k) request)"
    using ans st by (auto simp: is_transient_def)
  consider "k = 0" | "k = 1" | "k = 2" using k by linarith
  then show ?thesis
  proof cases
    case 1
    then show ?thesis using lim ans nt by (simp add: numeral_3_eq_3 Let_def)
  next
    case 2
    have "limiter_Wait env ctx (waits w) = None" "limiter_Wait env ctx (Suc (waits w)) = None"
      using lim [rule_format, of 0] lim [rule_format, of 1] 2 by simp_all
    moreover have "is_transient (client_Do env (requests w) request)"
      using tr [rule_format, of 0] 2 by simp
    ultimately show ?thesis using 2 ans nt by (simp add: numeral_3_eq_3 Let_def)
  next
    case 3
    have "limiter_Wait env ctx (waits w) = None" "limiter_Wait env ctx (Suc (waits w)) = None"
      "limiter_Wait env ctx (Suc (Suc (waits w))) = None"
      using lim [rule_format, of 0] lim [rule_format, of 1] lim [rule_format, of 2] 3
      by simp_all
    moreover have "is_transient (client_Do env (requests w) request)"
      "is_transient (client_Do env (Suc (requests w)) request)"
      using tr [rule_format, of 0] tr [rule_format, of 1] 3 by simp_all
    ultimately show ?thesis using 3 ans nt by (simp add: numeral_3_eq_3 Let_def)
  qed
qed

text \<open>
  The example environment, evaluated.
\<close>

lemma demo_new_request:
  "NewRequestWithContext (demo_env script) () ''GET'' url =
     Inr \<lparr>Method = ''GET'', URL = url, BasicAuth = None, Header = []\<rparr>"
  by (simp add: demo_env_def)

lemma demo_authenticate:
  "authenticateRequest demo_its \<lparr>Method = ''GET'', URL = url, BasicAuth = None, Header = []\<rparr> =
     Inr (demo_request url)"
  by (simp add: authenticateRequest_def demo_its_def New_def demo_request_def)

lemma demo_limiter: "limiter_Wait (demo_env script) () k = None"
  by (simp add: demo_env_def)

lemma demo_do:
  "client_Do (demo_env script) k request =
     (if k < length script then script ! k else Inl (LibError ''connection refused''))"
  by (simp add: demo_env_def)

lemma demo_query_answer:
  assumes "requests w < length script"
    and "script ! requests w = Inr response"
    and "StatusCode response = 200 \<or> StatusCode response = 404"
  shows "GetProductsFromQuery (demo_env script) demo_its () query w =
     (let w = w\<lparr>waits := Suc (waits w), requests := Suc (requests w),
                 closed_bodies := Suc (closed_bodies w)\<rparr>
      in if StatusCode response = 404 then (Inr \<lparr>Product = []\<rparr>, w)
         else (case demo_decode (Body response) of
                 Inl e \<Rightarrow> (Inl e, w)
               | Inr products \<Rightarrow> (Inr products, w)))"
proof -
  have nt: "\<not> is_transient (client_Do (demo_env script) (requests w) request)" for request
    using assms by (auto simp: demo_do is_transient_def)
  have loop: "retry_loop (demo_env script) () request msg 3 None None w =
      (LoopEnd (Some response) None,
       w\<lparr>waits := Suc (waits w), requests := Suc (requests w)\<rparr>)" for request msg
    using assms(1,2) nt [of request] by (simp add: numeral_3_eq_3 demo_limiter demo_do Let_def)
  show ?thesis
    using after_loop [OF demo_new_request demo_authenticate loop] assms(3)
    by (auto simp: Let_def demo_env_def)
qed

lemma demo_query_exhausted:
  assumes "requests w + 2 < length script"
    and "script ! requests w = Inr r1" "StatusCode r1 \<noteq> 200 \<and> StatusCode r1 \<noteq> 404"
    and "script ! (requests w + 1) = Inr r2" "StatusCode r2 \<noteq> 200 \<and> StatusCode r2 \<noteq> 404"
    and "script ! (requests w + 2) = Inr r3" "StatusCode r3 \<noteq> 200 \<and> StatusCode r3 \<noteq> 404"
  shows "GetProductsFromQuery (demo_env script) demo_its () query w =
     (Inl (UnexpectedStatusCodeError (Status r3) (StatusCode r3)),
      w\<lparr>waits := waits w + 3, requests := requests w + 3,
        logged := logged w @ replicate 3 ''Error during GetProductsFromQuery, retrying...'',
        slept := slept w + 12, closed_bodies := Suc (closed_bodies w)\<rparr>)"
proof -
  have loop: "retry_loop (demo_env script) () request
        ''Error during GetProductsFromQuery, retrying...'' 3 None None w =
      (LoopEnd (Some r3) None,
       w\<lparr>waits := waits w + 3, requests := requests w + 3,
        logged := logged w @ replicate 3 ''Error during GetProductsFromQuery, retrying...'',
        slept := slept w + 12\<rparr>)" for request
    using assms
    by (simp add: numeral_3_eq_3 demo_limiter demo_do Let_def is_transient_def)
  show ?thesis
    using after_loop [OF demo_new_request demo_authenticate loop] assms(7)
    by (simp add: Let_def NewUnexpectedStatusCodeError_def)
qed

lemma demo_types_answer:
  assumes "requests w < length script"
    and "script ! requests w = Inr response"
    and "StatusCode response = 200"
    and "demo_decode_types (Body response) = Inr c"
  shows "GetAllProductTypes (demo_env script) demo_its () w =
     (Inr (ProductTypes c),
      w\<lparr>waits := Suc (waits w), requests := Suc (requests w),
        closed_bodies := Suc (closed_bodies w)\<rparr>)"
proof -
  have nt: "\<not> is_transient (client_Do (demo_env script) (requests w) request)" for request
    using assms by (auto simp: demo_do is_transient_def)
  have loop: "retry_loop (demo_env script) () request msg 3 None None w =
      (LoopEnd (Some response) None,
       w\<lparr>waits := Suc (waits w), requests := Suc (requests w)\<rparr>)" for request msg
    using assms(1,2) nt [of request] by (simp add: numeral_3_eq_3 demo_limiter demo_do Let_def)
  have dec: "Decode_ProductTypesContainer (demo_env script) = demo_decode_types"
    by (simp add: demo_env_def)
  show ?thesis
    using assms(3,4)
    by (simp add: GetAllProductTypes_def demo_new_request demo_authenticate loop Let_def dec)
qed

lemma demo_ids_queries:
  "createQueryStrings demo_ids 50 =
     Inr [queryString [''z''], queryString (replicate 50 ''a'')]"
proof -
  have "page_count demo_ids 50 = 2" by (simp add: page_count_def demo_ids_def)
  then show ?thesis
    using createQueryStrings_chunks [of 50 demo_ids]
    by (simp add: chunk_def demo_ids_def numeral_2_eq_2)
qed

text \<open>
  Claim C3. When the request has been built and authenticated, the limiter grants the three
  tokens, the first two attempts fail transiently (a transport error or a status other than
  200 and 404) and the third attempt is answered with a status other than 200 and 404, then
  \<open>GetProductsFromQuery\<close> returns the \<open>UnexpectedStatusCodeError\<close> made from the
  response of the third attempt, after exactly three requests.
\<close>

theorem GetProductsFromQuery_retries_exhausted:
  assumes req: "NewRequestWithContext env ctx ''GET'' (search_url env query) = Inr request0"
    and auth: "authenticateRequest its request0 = Inr request"
    and lim: "\<forall>k<3. limiter_Wait env ctx (waits w + k) = None"
    and t1: "is_transient (client_Do env (requests w) request)"
    and t2: "is_transient (client_Do env (requests w + 1) request)"
    and t3: "client_Do env (requests w + 2) request = Inr response"
    and st: "StatusCode response \<noteq> 200 \<and> StatusCode response \<noteq> 404"
  shows "fst (GetProductsFromQuery env its ctx query w) =
           Inl (UnexpectedStatusCodeError (Status response) (StatusCode response)) \<and>
         requests (snd (GetProductsFromQuery env its ctx query w)) = requests w + 3"
proof -
  have l0: "limiter_Wait env ctx (waits w) = None"
    and l1: "limiter_Wait env ctx (Suc (waits w)) = None"
    and l2: "limiter_Wait env ctx (Suc (Suc (waits w))) = None"
    using lim [rule_format, of 0] lim [rule_format, of 1] lim [rule_format, of 2] by simp_all
  have t3': "is_transient (client_Do env (Suc (Suc (requests w))) request)"
    using t3 st by (simp add: is_transient_def)
  obtain w' where loop: "retry_loop env ctx request ''Error during GetProductsFromQuery, retrying...''
                 3 None None w = (LoopEnd (Some response) None, w')" and r: "requests w' = requests w + 3"
    using l0 l1 l2 t1 t2 t3 t3' by (simp add: numeral_3_eq_3 Let_def)
  show ?thesis using after_loop [OF req auth loop] st r
    by (simp add: Let_def NewUnexpectedStatusCodeError_def)
qed

theorem GetProductsFromQuery_retries_exhausted_witness:
  "fst (GetProductsFromQuery
          (demo_env [status 500 ''500 Internal Server Error'' [], Inl (LibError ''EOF''),
                     status 503 ''503 Service Unavailable'' []])
          demo_its () ''id=X'' world0) =
     Inl (UnexpectedStatusCodeError ''503 Service Unavailable'' 503) \<and>
   requests (snd (GetProductsFromQuery
          (demo_env [status 500 ''500 Internal Server Error'' [], Inl (LibError ''EOF''),
                     status 503 ''503 Service Unavailable'' []])
          demo_its () ''id=X'' world0)) = 3"
proof -
  let ?env = "demo_env [status 500 ''500 Internal Server Error'' [], Inl (LibError ''EOF''),
                     status 503 ''503 Service Unavailable'' []]"
  let ?rq = "demo_request (search_url ?env ''id=X'')"
  have lim: "\<forall>k<3. limiter_Wait ?env () (waits world0 + k) = None"
    by (simp add: demo_limiter)
  have t1: "is_transient (client_Do ?env (requests world0) ?rq)"
    by (simp add: demo_do world0_def status_def is_transient_def)
  have t2: "is_transient (client_Do ?env (requests world0 + 1) ?rq)"
    by (simp add: demo_do world0_def status_def is_transient_def)
  have t3: "client_Do ?env (requests world0 + 2) ?rq =
              Inr \<lparr>StatusCode = 503, Status = ''503 Service Unavailable'', Body = []\<rparr>"
    by (simp add: demo_do world0_def status_def)
  show ?thesis
    using GetProductsFromQuery_retries_exhausted
      [OF demo_new_request demo_authenticate lim t1 t2 t3]
    by (simp add: world0_def)
qed

text \<open>
  Claim C4, as stated, fails: an invocation need not send any request. With an empty user
  name \<open>authenticateRequest\<close> fails and \<open>GetProductsFromQuery\<close> returns before the
  loop.
\<close>

theorem GetProductsFromQuery_no_request_counterexample:
  "\<not> (requests world0 + 1 \<le>
        requests (snd (GetProductsFromQuery (demo_env [status 200 ''200 OK'' ''X''])
                         (New ''acme'' [] ''secret'' ''de'') () ''id=1'' world0)))"
  by (simp add: GetProductsFromQuery_def demo_env_def New_def authenticateRequest_def world0_def)

text \<open>
  Claim C4, amended. Every invocation of \<open>GetProductsFromQuery\<close> sends at most three
  requests; it sends at least one when the request has been built and authenticated and the
  limiter grants the first token. When \<open>k < 3\<close> attempts fail transiently, the limiter
  grants every token, and attempt \<open>k\<close> is answered with status 200 and a body that
  decodes, the call returns the decoded container without error after \<open>k + 1\<close> requests.
\<close>

theorem GetProductsFromQuery_attempts:
  "requests (snd (GetProductsFromQuery env its ctx query w)) \<le> requests w + 3 \<and>
   (\<forall>request0 request.
      NewRequestWithContext env ctx ''GET'' (search_url env query) = Inr request0 \<longrightarrow>
      authenticateRequest its request0 = Inr request \<longrightarrow>
      limiter_Wait env ctx (waits w) = None \<longrightarrow>
      requests w + 1 \<le> requests (snd (GetProductsFromQuery env its ctx query w))) \<and>
   (\<forall>request0 request k response products.
      NewRequestWithContext env ctx ''GET'' (search_url env query) = Inr request0 \<longrightarrow>
      authenticateRequest its request0 = Inr request \<longrightarrow>
      k < 3 \<longrightarrow>
      (\<forall>j\<le>k. limiter_Wait env ctx (waits w + j) = None) \<longrightarrow>
      (\<forall>j<k. is_transient (client_Do env (requests w + j) request)) \<longrightarrow>
      client_Do env (requests w + k) request = Inr response \<longrightarrow>
      StatusCode response = 200 \<longrightarrow>
      Decode_ProductsContainer env (Body response) = Inr products \<longrightarrow>
      fst (GetProductsFromQuery env its ctx query w) = Inr products \<and>
      requests (snd (GetProductsFromQuery env its ctx query w)) = requests w + k + 1)"
proof (intro conjI allI impI)
  show "requests (snd (GetProductsFromQuery env its ctx query w)) \<le> requests w + 3"
    by (rule GetProductsFromQuery_at_most_three [THEN conjunct2])
next
  fix request0 request
  assume req: "NewRequestWithContext env ctx ''GET'' (search_url env query) = Inr request0"
    and auth: "authenticateRequest its request0 = Inr request"
    and lim: "limiter_Wait env ctx (waits w) = None"
  let ?msg = "''Error during GetProductsFromQuery, retrying...''"
  let ?w1 = "w\<lparr>waits := Suc (waits w), requests := Suc (requests w)\<rparr>"
  obtain x w' where loop: "retry_loop env ctx request ?msg 3 None None w = (x, w')"
    by (cases "retry_loop env ctx request ?msg 3 None None w")
  have "Suc (requests w) \<le> requests w'"
  proof (cases "is_transient (client_Do env (requests w) request)")
    case True
    let ?w2 = "?w1\<lparr>logged := logged ?w1 @ [?msg], slept := slept ?w1 + 4\<rparr>"
    have "\<exists>r e. retry_loop env ctx request ?msg 3 None None w =
            retry_loop env ctx request ?msg 2 r e ?w2"
      using lim True by (simp add: numeral_3_eq_3 numeral_2_eq_2 Let_def)
    then obtain r e where "retry_loop env ctx request ?msg 2 r e ?w2 = (x, w')"
      using loop by auto
    then show ?thesis using retry_loop_requests [of ?w2 env ctx request ?msg 2 r e] by simp
  next
    case False
    then show ?thesis using lim loop by (auto simp: numeral_3_eq_3 Let_def)
  qed
  moreover have "requests (snd (GetProductsFromQuery env its ctx query w)) = requests w'"
    using req auth loop
    by (auto simp: GetProductsFromQuery_def Let_def
        split: sum.splits prod.splits loop_exit.splits option.splits)
  ultimately show "requests w + 1 \<le> requests (snd (GetProductsFromQuery env its ctx query w))"
    by simp
next
  fix request0 request k response products
  assume req: "NewRequestWithContext env ctx ''GET'' (search_url env query) = Inr request0"
    and auth: "authenticateRequest its request0 = Inr request"
    and k: "k < 3"
    and lim: "\<forall>j\<le>k. limiter_Wait env ctx (waits w + j) = None"
    and tr: "\<forall>j<k. is_transient (client_Do env (requests w + j) request)"
    and ans: "client_Do env (requests w + k) request = Inr response"
    and st: "StatusCode response = 200"
    and dec: "Decode_ProductsContainer env (Body response) = Inr products"
  obtain w' where loop: "retry_loop env ctx request
        ''Error during GetProductsFromQuery, retrying...'' 3 None None w =
        (LoopEnd (Some response) None, w')" and r: "requests w' = requests w + k + 1"
    using retry_loop_answer [OF k lim tr ans] st by blast
  show "fst (GetProductsFromQuery env its ctx query w) = Inr products"
    using after_loop [OF req auth loop] st dec by (simp add: Let_def)
  show "requests (snd (GetProductsFromQuery env its ctx query w)) = requests w + k + 1"
    using after_loop [OF req auth loop] st dec r by (simp add: Let_def)
qed

theorem GetProductsFromQuery_attempts_witness:
  "fst (GetProductsFromQuery
          (demo_env [status 503 ''503 Service Unavailable'' [], status 200 ''200 OK'' ''X''])
          demo_its () ''id=X'' world0) = Inr \<lparr>Product = [product_X]\<rparr> \<and>
   requests (snd (GetProductsFromQuery
          (demo_env [status 503 ''503 Service Unavailable'' [], status 200 ''200 OK'' ''X''])
          demo_its () ''id=X'' world0)) = 2"
proof -
  let ?env = "demo_env [status 503 ''503 Service Unavailable'' [], status 200 ''200 OK'' ''X'']"
  let ?url = "search_url ?env ''id=X''"
  have tr: "\<forall>j<1. is_transient (client_Do ?env (requests world0 + j) (demo_request ?url))"
    by (simp add: demo_do world0_def status_def is_transient_def)
  have ans: "client_Do ?env (requests world0 + 1) (demo_request ?url) =
               Inr \<lparr>StatusCode = 200, Status = ''200 OK'', Body = ''X''\<rparr>"
    by (simp add: demo_do world0_def status_def)
  have dec: "Decode_ProductsContainer ?env
               (Body \<lparr>StatusCode = 200, Status = ''200 OK'', Body = ''X''\<rparr>) =
             Inr \<lparr>Product = [product_X]\<rparr>"
    by (simp add: demo_env_def demo_decode_def)
  show ?thesis
    using GetProductsFromQuery_attempts [of ?env demo_its "()" "''id=X''" world0,
        THEN conjunct2, THEN conjunct2, rule_format, where k = 1,
        OF demo_new_request demo_authenticate _ _ tr [rule_format] ans _ dec]
    by (simp add: demo_limiter world0_def)
qed

text \<open>
  Claim C5. When the answer to an attempt of \<open>GetProductsFromQuery\<close> has status 404
  (attempt \<open>k\<close>, after \<open>k\<close> transient ones), the call returns the empty container
  and no error, and that attempt was its last request: \<open>k + 1\<close> requests and \<open>4 * k\<close>
  seconds of back-off in all, so one request and no back-off when the first answer is the
  404. \<open>GetProductData\<close>, whose query is \<open>distpid=\<close> followed by the SKU, then returns
  no product and no error, with the same requests.
\<close>

theorem not_found_is_empty_result:
  assumes req: "NewRequestWithContext env ctx ''GET'' (search_url env query) = Inr request0"
    and auth: "authenticateRequest its request0 = Inr request"
    and k: "k < 3"
    and lim: "\<forall>j\<le>k. limiter_Wait env ctx (waits w + j) = None"
    and tr: "\<forall>j<k. is_transient (client_Do env (requests w + j) request)"
    and ans: "client_Do env (requests w + k) request = Inr response"
    and st: "StatusCode response = 404"
  shows "fst (GetProductsFromQuery env its ctx query w) = Inr \<lparr>Product = []\<rparr> \<and>
         requests (snd (GetProductsFromQuery env its ctx query w)) = requests w + k + 1 \<and>
         slept (snd (GetProductsFromQuery env its ctx query w)) = slept w + 4 * k \<and>
         (\<forall>productSKU. query = ''distpid='' @ productSKU \<longrightarrow>
            fst (GetProductData env its ctx productSKU w) = Inr None \<and>
            requests (snd (GetProductData env its ctx productSKU w)) = requests w + k + 1 \<and>
            slept (snd (GetProductData env its ctx productSKU w)) = slept w + 4 * k)"
proof -
  obtain w' where loop: "retry_loop env ctx request
        ''Error during GetProductsFromQuery, retrying...'' 3 None None w =
        (LoopEnd (Some response) None, w')"
    and r: "requests w' = requests w + k + 1" and s: "slept w' = slept w + 4 * k"
    using retry_loop_answer [OF k lim tr ans] st by blast
  have q: "GetProductsFromQuery env its ctx query w =
             (Inr \<lparr>Product = []\<rparr>, w'\<lparr>closed_bodies := Suc (closed_bodies w')\<rparr>)"
    using after_loop [OF req auth loop] st by (simp add: Let_def)
  have "GetProductData env its ctx productSKU w =
          (Inr None, w'\<lparr>closed_bodies := Suc (closed_bodies w')\<rparr>)"
    if e: "query = ''distpid='' @ productSKU" for productSKU
    using q unfolding e by (simp add: GetProductData_def)
  then show ?thesis using q r s by simp
qed

theorem not_found_is_empty_result_witness:
  "GetProductsFromQuery (demo_env [status 404 ''404 Not Found'' []]) demo_its ()
     ''distpid=4711'' world0 =
     (Inr \<lparr>Product = []\<rparr>,
      \<lparr>waits = 1, requests = 1, slept = 0, closed_bodies = 1, logged = []\<rparr>) \<and>
   fst (GetProductData (demo_env [status 404 ''404 Not Found'' []]) demo_its () ''4711'' world0) =
     Inr None \<and>
   requests (snd (GetProductData (demo_env [status 404 ''404 Not Found'' []]) demo_its ()
     ''4711'' world0)) = 1"
proof -
  let ?env = "demo_env [status 404 ''404 Not Found'' []]"
  have lim: "\<forall>j\<le>0. limiter_Wait ?env () (waits world0 + j) = None"
    by (simp add: demo_limiter)
  have tr: "\<forall>j<0. is_transient (client_Do ?env (requests world0 + j)
              (demo_request (search_url ?env ''distpid=4711'')))"
    by simp
  have ans: "client_Do ?env (requests world0 + 0)
               (demo_request (search_url ?env ''distpid=4711'')) =
               Inr \<lparr>StatusCode = 404, Status = ''404 Not Found'', Body = []\<rparr>"
    by (simp add: demo_do world0_def status_def)
  have q: "GetProductsFromQuery ?env demo_its () ''distpid=4711'' world0 =
     (Inr \<lparr>Product = []\<rparr>,
      \<lparr>waits = 1, requests = 1, slept = 0, closed_bodies = 1, logged = []\<rparr>)"
    using demo_query_answer [of world0 "[status 404 ''404 Not Found'' []]"
        "\<lparr>StatusCode = 404, Status = ''404 Not Found'', Body = []\<rparr>" "''distpid=4711''"]
    by (simp add: world0_def status_def)
  show ?thesis
    using not_found_is_empty_result
      [OF demo_new_request demo_authenticate _ lim tr ans] q
    by (simp add: world0_def)
qed

text \<open>
  Claim C7. With an empty user name or password, \<open>GetProductsFromQuery\<close> and
  \<open>GetAllProductTypes\<close> fail and leave the world as it was: no limiter wait and no
  request. The error wraps the one of \<open>authenticateRequest\<close> whenever
  \<open>http.NewRequestWithContext\<close> has returned a request (it fails for a nil context only,
  and then the call fails before the credentials are looked at).
\<close>

theorem missing_credentials_before_network:
  assumes cred: "username its = [] \<or> password its = []"
  shows
    "snd (GetProductsFromQuery env its ctx query w) = w \<and>
     snd (GetAllProductTypes env its ctx w) = w \<and>
     (\<exists>e. fst (GetProductsFromQuery env its ctx query w) = Inl e) \<and>
     (\<exists>e. fst (GetAllProductTypes env its ctx w) = Inl e) \<and>
     (\<forall>request. NewRequestWithContext env ctx ''GET'' (search_url env query) = Inr request \<longrightarrow>
        fst (GetProductsFromQuery env its ctx query w) =
          Inl (Errorf ''GetProductsFromQuery2: %w'' (Some ErrNoCredentials))) \<and>
     (\<forall>request. NewRequestWithContext env ctx ''GET'' producttypes_url = Inr request \<longrightarrow>
        fst (GetAllProductTypes env its ctx w) =
          Inl (Errorf ''could not retrieve product types: %w'' (Some ErrNoCredentials)))"
proof -
  have auth: "authenticateRequest its request = Inl ErrNoCredentials" for request
    using cred by (auto simp: authenticateRequest_def)
  show ?thesis
    by (cases "NewRequestWithContext env ctx ''GET'' (search_url env query)";
        cases "NewRequestWithContext env ctx ''GET'' producttypes_url")
      (simp_all add: GetProductsFromQuery_def GetAllProductTypes_def auth Let_def)
qed

theorem missing_credentials_before_network_witness:
  "GetProductsFromQuery (demo_env [status 200 ''200 OK'' ''X''])
     (New ''acme'' ''user'' [] ''de'') () ''id=X'' world0 =
     (Inl (Errorf ''GetProductsFromQuery2: %w'' (Some ErrNoCredentials)), world0) \<and>
   GetAllProductTypes (demo_env [status 200 ''200 OK'' ''X''])
     (New ''acme'' ''user'' [] ''de'') () world0 =
     (Inl (Errorf ''could not retrieve product types: %w'' (Some ErrNoCredentials)), world0)"
proof -
  have cred: "username (New ''acme'' ''user'' [] ''de'') = [] \<or>
              password (New ''acme'' ''user'' [] ''de'') = []"
    by (simp add: New_def)
  show ?thesis
    using missing_credentials_before_network [OF cred,
        of "demo_env [status 200 ''200 OK'' ''X'']" "()" "''id=X''" world0]
    by (simp add: demo_new_request prod_eq_iff)
qed

text \<open>
  Claim C10. \<open>GetProductData\<close> returns the nil product together with a nil error
  exactly when its query has yielded a container without products (as it does on a 404,
  see above): the absence of a product is not an error.
\<close>

theorem GetProductData_nil_iff:
  "GetProductData env its ctx productSKU w = (Inr None, w') \<longleftrightarrow>
     (\<exists>productContainer.
        GetProductsFromQuery env its ctx (''distpid='' @ productSKU) w =
          (Inr productContainer, w') \<and>
        Product productContainer = [])"
  by (cases "GetProductsFromQuery env its ctx (''distpid='' @ productSKU) w")
    (auto simp: GetProductData_def split: sum.splits)

theorem GetProductData_nil_iff_witness:
  "GetProductData (demo_env [status 200 ''200 OK'' ''empty'']) demo_its () ''4711'' world0 =
     (Inr None, \<lparr>waits = 1, requests = 1, slept = 0, closed_bodies = 1, logged = []\<rparr>)"
proof -
  let ?env = "demo_env [status 200 ''200 OK'' ''empty'']"
  let ?w = "\<lparr>waits = 1, requests = 1, slept = 0, closed_bodies = 1, logged = []\<rparr>"
  have "GetProductsFromQuery ?env demo_its () (''distpid='' @ ''4711'') world0 =
          (Inr \<lparr>Product = []\<rparr>, ?w)"
    using demo_query_answer [of world0 "[status 200 ''200 OK'' ''empty'']"
        "\<lparr>StatusCode = 200, Status = ''200 OK'', Body = ''empty''\<rparr>" "''distpid='' @ ''4711''"]
    by (simp add: world0_def status_def demo_decode_def)
  then have "\<exists>productContainer.
        GetProductsFromQuery ?env demo_its () (''distpid='' @ ''4711'') world0 =
          (Inr productContainer, ?w) \<and> Product productContainer = []"
    by simp
  then show ?thesis
    using GetProductData_nil_iff [of ?env demo_its "()" "''4711''" world0 ?w] by blast
qed

section \<open>Properties of the fan-out aggregator\<close>

text \<open>
  Claim C8. For the empty identifier list the aggregator returns the empty result and no
  error, in the world it was called in: nothing has been sent.
\<close>

theorem GetProductAccessoriesFromList_empty:
  "GetProductAccessoriesFromList env its ctx [] w = (Inr [], w)"
  by (simp add: GetProductAccessoriesFromList_def)

lemma world_before_0 [simp]: "world_before env its ctx qs w 0 = w"
  by (simp add: world_before_def)

lemma world_before_Suc [simp]:
  "world_before env its ctx (q # qs) w (Suc k) =
     world_before env its ctx qs (snd (GetProductsFromQuery env its ctx q w)) k"
  by (simp add: world_before_def)

lemma group_result_0 [simp]:
  "group_result env its ctx (q # qs) w 0 = fst (GetProductsFromQuery env its ctx q w)"
  by (simp add: group_result_def)

lemma group_result_Suc [simp]:
  "group_result env its ctx (q # qs) w (Suc k) =
     group_result env its ctx qs (snd (GetProductsFromQuery env its ctx q w)) k"
  by (simp add: group_result_def)

lemma loop_all_succeed:
  assumes "length cs = length qs"
    and "\<forall>k<length qs. group_result env its ctx qs w k = Inr (cs ! k)"
  shows "GetProductAccessoriesFromList_loop env its ctx qs productList w =
           (Inr (productList @ concat (map Product cs)),
            world_before env its ctx qs w (length qs))"
  using assms
proof (induction qs arbitrary: cs productList w)
  case Nil
  then show ?case by simp
next
  case (Cons q qs)
  then obtain c cs' where cs: "cs = c # cs'" by (cases cs) auto
  obtain r w1 where g: "GetProductsFromQuery env its ctx q w = (r, w1)"
    by (cases "GetProductsFromQuery env its ctx q w")
  have r: "r = Inr c" using Cons.prems(2) [rule_format, of 0] g cs by simp
  have len: "length cs' = length qs" using Cons.prems(1) cs by simp
  have rest: "\<forall>k<length qs. group_result env its ctx qs w1 k = Inr (cs' ! k)"
  proof (intro allI impI)
    fix k assume "k < length qs"
    then show "group_result env its ctx qs w1 k = Inr (cs' ! k)"
      using Cons.prems(2) [rule_format, of "Suc k"] g cs by simp
  qed
  show ?case using Cons.IH [OF len rest] g r cs by simp
qed

lemma loop_first_failure:
  assumes "k < length qs"
    and "\<forall>j<k. \<exists>c. group_result env its ctx qs w j = Inr c"
    and "group_result env its ctx qs w k = Inl e"
  shows "GetProductAccessoriesFromList_loop env its ctx qs productList w =
           (Inl e, world_before env its ctx qs w (Suc k))"
  using assms
proof (induction qs arbitrary: k productList w)
  case Nil
  then show ?case by simp
next
  case (Cons q qs)
  obtain r w1 where g: "GetProductsFromQuery env its ctx q w = (r, w1)"
    by (cases "GetProductsFromQuery env its ctx q w")
  show ?case
  proof (cases k)
    case 0
    then show ?thesis using Cons.prems(3) g by simp
  next
    case (Suc k')
    obtain c where r: "r = Inr c" using Cons.prems(2) [rule_format, of 0] g Suc by auto
    have k': "k' < length qs" using Cons.prems(1) Suc by simp
    have before: "\<forall>j<k'. \<exists>c. group_result env its ctx qs w1 j = Inr c"
    proof (intro allI impI)
      fix j assume "j < k'"
      then show "\<exists>c. group_result env its ctx qs w1 j = Inr c"
        using Cons.prems(2) [rule_format, of "Suc j"] g Suc by simp
    qed
    have fail: "group_result env its ctx qs w1 k' = Inl e" using Cons.prems(3) g Suc by simp
    show ?thesis using Cons.IH [OF k' before fail] g r Suc by simp
  qed
qed

lemma createQueryStrings_empty: "createQueryStrings [] 50 = Inr []"
  by (simp add: createQueryStrings_def createQueryStrings_loop.simps)

text \<open>
  The sequential aggregator does what claim C2 says. Let \<open>queryStrings\<close> be the groups
  of the identifier list. If the query of
  group \<open>k\<close> fails with \<open>e\<close> and the queries of the groups before it succeed, the
  aggregator returns \<open>e\<close> and no products (every error return of the package has a nil
  first result), and the world is the one after group \<open>k\<close>: the later groups are not
  queried. If the queries of all groups succeed, it returns the concatenation of their
  product lists, in the order of the groups.
\<close>

theorem GetProductAccessoriesFromList_all_or_nothing:
  assumes qs: "createQueryStrings products 50 = Inr queryStrings"
  shows
    "(\<forall>k e. k < length queryStrings \<longrightarrow>
        (\<forall>j<k. \<exists>c. group_result env its ctx queryStrings w j = Inr c) \<longrightarrow>
        group_result env its ctx queryStrings w k = Inl e \<longrightarrow>
        GetProductAccessoriesFromList env its ctx products w =
          (Inl e, world_before env its ctx queryStrings w (Suc k))) \<and>
     (\<forall>cs. length cs = length queryStrings \<longrightarrow>
        (\<forall>k<length queryStrings. group_result env its ctx queryStrings w k = Inr (cs ! k)) \<longrightarrow>
        GetProductAccessoriesFromList env its ctx products w =
          (Inr (concat (map Product cs)),
           world_before env its ctx queryStrings w (length queryStrings)))"
proof (cases "products = []")
  case True
  then have "queryStrings = []" using qs createQueryStrings_empty by simp
  then show ?thesis using True by (simp add: GetProductAccessoriesFromList_def)
next
  case False
  then have run: "GetProductAccessoriesFromList env its ctx products w =
      GetProductAccessoriesFromList_loop env its ctx queryStrings [] w"
    using qs by (simp add: GetProductAccessoriesFromList_def)
  show ?thesis unfolding run
    using loop_first_failure [of _ queryStrings env its ctx w _ "[]"]
      loop_all_succeed [of _ queryStrings env its ctx w "[]"]
    by simp
qed

theorem GetProductAccessoriesFromList_all_or_nothing_witness:
  "GetProductAccessoriesFromList
     (demo_env [status 200 ''200 OK'' ''X'', status 404 ''404 Not Found'' []])
     demo_its () demo_ids world0 =
     (Inr [product_X],
      \<lparr>waits = 2, requests = 2, slept = 0, closed_bodies = 2, logged = []\<rparr>) \<and>
   fst (GetProductAccessoriesFromList
     (demo_env [status 200 ''200 OK'' ''X'', status 500 ''500 Internal Server Error'' [],
                status 500 ''500 Internal Server Error'' [],
                status 503 ''503 Service Unavailable'' []])
     demo_its () demo_ids world0) =
     Inl (UnexpectedStatusCodeError ''503 Service Unavailable'' 503)"
proof -
  let ?qs = "[queryString [''z''], queryString (replicate 50 ''a'')]"
  let ?ok = "demo_env [status 200 ''200 OK'' ''X'', status 404 ''404 Not Found'' []]"
  let ?bad = "demo_env [status 200 ''200 OK'' ''X'', status 500 ''500 Internal Server Error'' [],
                status 500 ''500 Internal Server Error'' [],
                status 503 ''503 Service Unavailable'' []]"
  let ?w1 = "\<lparr>waits = Suc 0, requests = Suc 0, slept = 0, closed_bodies = Suc 0, logged = []\<rparr>"
  let ?w2 = "\<lparr>waits = Suc (Suc 0), requests = Suc (Suc 0), slept = 0,
               closed_bodies = Suc (Suc 0), logged = []\<rparr>"
  have ok0: "GetProductsFromQuery ?ok demo_its () q world0 = (Inr \<lparr>Product = [product_X]\<rparr>, ?w1)"
    for q
    using demo_query_answer [of world0 "[status 200 ''200 OK'' ''X'', status 404 ''404 Not Found'' []]"
        "\<lparr>StatusCode = 200, Status = ''200 OK'', Body = ''X''\<rparr>" q]
    by (simp add: world0_def status_def demo_decode_def)
  have ok1: "GetProductsFromQuery ?ok demo_its () q ?w1 = (Inr \<lparr>Product = []\<rparr>, ?w2)" for q
    using demo_query_answer [of ?w1 "[status 200 ''200 OK'' ''X'', status 404 ''404 Not Found'' []]"
        "\<lparr>StatusCode = 404, Status = ''404 Not Found'', Body = []\<rparr>" q]
    by (simp add: status_def)
  have g_ok: "\<forall>k<length ?qs. group_result ?ok demo_its () ?qs world0 k =
                Inr ([\<lparr>Product = [product_X]\<rparr>, \<lparr>Product = []\<rparr>] ! k)"
    by (simp add: less_Suc_eq group_result_def world_before_def ok0 ok1)
  have wb: "world_before ?ok demo_its () ?qs world0 (length ?qs) = ?w2"
    by (simp add: world_before_def ok0 ok1)
  have first: "GetProductAccessoriesFromList ?ok demo_its () demo_ids world0 = (Inr [product_X], ?w2)"
    using GetProductAccessoriesFromList_all_or_nothing [OF demo_ids_queries,
        of ?ok demo_its "()" world0, THEN conjunct2, rule_format,
        of "[\<lparr>Product = [product_X]\<rparr>, \<lparr>Product = []\<rparr>]"] g_ok wb
    by simp
  have bad0: "GetProductsFromQuery ?bad demo_its () q world0 = (Inr \<lparr>Product = [product_X]\<rparr>, ?w1)"
    for q
    using demo_query_answer [of world0 _ "\<lparr>StatusCode = 200, Status = ''200 OK'', Body = ''X''\<rparr>" q]
    by (simp add: world0_def status_def demo_decode_def)
  have bad1: "fst (GetProductsFromQuery ?bad demo_its () q ?w1) =
               Inl (UnexpectedStatusCodeError ''503 Service Unavailable'' 503)" for q
    using demo_query_exhausted [of ?w1 _
        "\<lparr>StatusCode = 500, Status = ''500 Internal Server Error'', Body = []\<rparr>"
        "\<lparr>StatusCode = 500, Status = ''500 Internal Server Error'', Body = []\<rparr>"
        "\<lparr>StatusCode = 503, Status = ''503 Service Unavailable'', Body = []\<rparr>" q]
    by (simp add: status_def)
  have g0: "\<forall>j<1. \<exists>c. group_result ?bad demo_its () ?qs world0 j = Inr c"
    by (simp add: group_result_def world_before_def bad0)
  have g1: "group_result ?bad demo_its () ?qs world0 1 =
              Inl (UnexpectedStatusCodeError ''503 Service Unavailable'' 503)"
    by (simp add: group_result_def world_before_def bad0 bad1)
  have second: "fst (GetProductAccessoriesFromList ?bad demo_its () demo_ids world0) =
     Inl (UnexpectedStatusCodeError ''503 Service Unavailable'' 503)"
    using GetProductAccessoriesFromList_all_or_nothing [OF demo_ids_queries,
        of ?bad demo_its "()" world0, THEN conjunct1, rule_format, of 1, OF _ g0 [rule_format] g1]
    by simp
  show ?thesis using first second by simp
qed

text \<open>
  Claim C2 fails on the variant of itscope.go. For 51 identifiers there are two groups; in
  the run in which the goroutine of the first group is answered with a product and appends
  it, and the goroutine of the second group is then answered with status 500, the function
  returns the product of the first group together with the error of the second: the
  results of the group that succeeded are returned with the error, not discarded.
\<close>

theorem GetProductAccessoriesFromList_itscope_partial_result:
  "admissible [0, 1] 2 \<and>
   createQueryStrings demo_ids 50 =
     Inr [queryString [''z''], queryString (replicate 50 ''a'')] \<and>
   GetProductAccessoriesFromList_itscope
     (demo_env [status 200 ''200 OK'' ''X'', status 500 ''500 Internal Server Error'' []])
     demo_its () [0, 1] demo_ids world0 =
     (([product_X], Some (Errorf ''500 Internal Server Error'' None)),
      \<lparr>waits = 0, requests = 2, slept = 0, closed_bodies = 2, logged = []\<rparr>)"
proof -
  let ?env = "demo_env [status 200 ''200 OK'' ''X'', status 500 ''500 Internal Server Error'' []]"
  let ?w1 = "\<lparr>waits = 0, requests = Suc 0, slept = 0, closed_bodies = Suc 0, logged = []\<rparr>"
  let ?w2 = "\<lparr>waits = 0, requests = Suc (Suc 0), slept = 0, closed_bodies = Suc (Suc 0),
               logged = []\<rparr>"
  have adm: "admissible [0, 1] 2"
    by (simp add: admissible_def less_Suc_eq numeral_2_eq_2 upt_rec)
  have first: "GetProductsFromQuery_itscope ?env demo_its () q world0 =
                 (Inr \<lparr>Product = [product_X]\<rparr>, ?w1)" for q
    by (simp add: GetProductsFromQuery_itscope_def demo_new_request demo_authenticate demo_do
        world0_def status_def Let_def demo_env_def demo_decode_def)
  have second: "GetProductsFromQuery_itscope ?env demo_its () q ?w1 =
                  (Inl (Errorf ''500 Internal Server Error'' None), ?w2)" for q
    by (simp add: GetProductsFromQuery_itscope_def demo_new_request demo_authenticate demo_do
        status_def Let_def)
  have "GetProductAccessoriesFromList_itscope ?env demo_its () [0, 1] demo_ids world0 =
          (([product_X], Some (Errorf ''500 Internal Server Error'' None)), ?w2)"
    by (simp add: GetProductAccessoriesFromList_itscope_def demo_ids_queries goroutine_def
        first second) (simp add: demo_ids_def)
  then show ?thesis using adm demo_ids_queries by (simp add: numeral_2_eq_2)
qed

section \<open>Properties of the product assembler\<close>

text \<open>
  The two nested loops store the products of \<open>assignments\<close>, one after the other.
\<close>

lemma inner_loop_filter:
  "fold (\<lambda>product m. if P product then AList.update (Puid product) product m else m) products m =
   fold store (filter P products) m"
  by (induction products arbitrary: m) (simp_all add: store_def)

lemma nested_loops_assignments:
  "fold (\<lambda>productType.
           fold (\<lambda>product m.
                   if type_matches product productType
                   then AList.update (Puid product) product m else m) products) typeList m =
   fold store (assignments products typeList) m"
proof (induction typeList arbitrary: m)
  case Nil
  show ?case by (simp add: assignments_def)
next
  case (Cons t ts)
  show ?case using Cons.IH by (simp add: assignments_def inner_loop_filter)
qed

lemma filteredProducts_of_assignments:
  "filteredProducts_of products typeList = fold store (assignments products typeList) []"
  by (simp add: filteredProducts_of_def nested_loops_assignments)

lemma store_distinct: "distinct (map fst m) \<Longrightarrow> distinct (map fst (fold store ps m))"
  by (induction ps arbitrary: m) (simp_all add: store_def distinct_update)

lemma store_lookup:
  "map_of (fold store ps m) k =
     (if \<exists>p \<in> set ps. Puid p = k then Some (last (filter (\<lambda>p. Puid p = k) ps))
      else map_of m k)"
proof (induction ps rule: rev_induct)
  case Nil
  show ?case by simp
next
  case (snoc p ps)
  show ?case using snoc.IH by (auto simp: store_def update_conv')
qed

lemma filteredProducts_entries:
  assumes "(k, p) \<in> set (filteredProducts_of products typeList)"
  shows "Puid p = k \<and> p \<in> set (assignments products typeList) \<and>
         p = last (filter (\<lambda>q. Puid q = Puid p) (assignments products typeList))"
proof -
  let ?A = "assignments products typeList"
  have d: "distinct (map fst (filteredProducts_of products typeList))"
    unfolding filteredProducts_of_assignments by (rule store_distinct) simp
  then have "map_of (filteredProducts_of products typeList) k = Some p"
    using assms by simp
  then have ex: "\<exists>q \<in> set ?A. Puid q = k" and p: "p = last (filter (\<lambda>q. Puid q = k) ?A)"
    unfolding filteredProducts_of_assignments store_lookup by (auto split: if_splits)
  have ne: "filter (\<lambda>q. Puid q = k) ?A \<noteq> []" using ex by (auto simp: filter_empty_conv)
  then have "p \<in> set (filter (\<lambda>q. Puid q = k) ?A)" unfolding p by (rule last_in_set)
  then have "Puid p = k" "p \<in> set ?A" by simp_all
  then show ?thesis using p by simp
qed

lemma assignments_set:
  "p \<in> set (assignments products typeList) \<longleftrightarrow>
     p \<in> set products \<and> (\<exists>t \<in> set typeList. type_matches p t)"
  by (auto simp: assignments_def)

text \<open>
  Claim C9. Whatever order \<open>range\<close> visits the map in, when the product types and the
  accessories have been fetched, the result of \<open>GetServiceTypeAccessoriesOfProduct\<close> has
  pairwise different \<open>Puid\<close>s; each of its products is a fetched accessory whose type id
  is the id of a fetched type of group \<open>SSP\<close>; each is the last product with its
  \<open>Puid\<close> that the loops have stored; and the result is empty when no fetched accessory
  has the type id of a type of group \<open>SSP\<close>. The winner is present: for every fetched
  accessory with the non-empty type id of a fetched type of group \<open>SSP\<close>, the last
  product stored under its \<open>Puid\<close> is in the result, which has as many products as the
  stored products have \<open>Puid\<close>s and is the value of \<open>FilterProductsByTypeList\<close> on
  the fetched accessories and the types of group \<open>SSP\<close>.
\<close>

theorem service_type_accessories:
  assumes perm: "\<And>m. mset (map_range env m) = mset m"
    and types: "GetAllProductTypes env its ctx w = (Inr productTypes, w1)"
    and accs: "GetProductAccessories env its ctx product w1 = (Inr accessories, w2)"
  shows "\<exists>result.
     GetServiceTypeAccessoriesOfProduct env its ctx product w = (Inr result, w2) \<and>
     distinct (map Puid result) \<and>
     (\<forall>p \<in> set result.
        p \<in> set accessories \<and>
        (\<exists>t \<in> set productTypes.
           GroupID (ProductTypeGroup t) = ''SSP'' \<and> ProductTypeID p = ID t)) \<and>
     (\<forall>p \<in> set result.
        p = last (filter (\<lambda>q. Puid q = Puid p)
                   (assignments accessories (FilterProductTypesByGroupId ''SSP'' productTypes)))) \<and>
     ((\<forall>p \<in> set accessories. \<forall>t \<in> set productTypes.
         GroupID (ProductTypeGroup t) = ''SSP'' \<longrightarrow> ProductTypeID p \<noteq> ID t) \<longrightarrow>
      result = []) \<and>
     (\<forall>p \<in> set accessories. \<forall>t \<in> set productTypes.
        GroupID (ProductTypeGroup t) = ''SSP'' \<longrightarrow> ProductTypeID p = ID t \<longrightarrow>
        ProductTypeID p \<noteq> [] \<longrightarrow>
        (\<exists>q \<in> set result.
           Puid q = Puid p \<and>
           q = last (filter (\<lambda>q. Puid q = Puid p)
                 (assignments accessories
                    (FilterProductTypesByGroupId ''SSP'' productTypes))))) \<and>
     length result =
       card (Puid ` set (assignments accessories
                           (FilterProductTypesByGroupId ''SSP'' productTypes))) \<and>
     result = FilterProductsByTypeList env accessories
                (FilterProductTypesByGroupId ''SSP'' productTypes)"
proof -
  define serviceTypes where "serviceTypes = FilterProductTypesByGroupId ''SSP'' productTypes"
  define m where "m = filteredProducts_of accessories serviceTypes"
  define result where "result = FilterProductsByTypeList env accessories serviceTypes"
  have res: "result = map snd (map_range env m)"
    by (simp add: result_def FilterProductsByTypeList_def m_def)
  have run: "GetServiceTypeAccessoriesOfProduct env its ctx product w = (Inr result, w2)"
    using types accs
    by (simp add: GetServiceTypeAccessoriesOfProduct_def Let_def result_def serviceTypes_def)
  have set_eq: "set (map_range env m) = set m" using perm [of m] by (rule mset_eq_setD)
  have entry: "Puid p = k \<and> p \<in> set (assignments accessories serviceTypes) \<and>
       p = last (filter (\<lambda>q. Puid q = Puid p) (assignments accessories serviceTypes))"
    if "(k, p) \<in> set (map_range env m)" for k p
  proof -
    have "(k, p) \<in> set m" using that unfolding set_eq .
    then show ?thesis unfolding m_def by (rule filteredProducts_entries)
  qed
  have dm: "distinct (map fst m)"
    unfolding m_def filteredProducts_of_assignments by (rule store_distinct) simp
  have "mset (map fst (map_range env m)) = mset (map fst m)" using perm [of m] by simp
  then have "distinct (map fst (map_range env m))"
    using dm by (metis mset_eq_imp_distinct_iff)
  moreover have "map Puid result = map fst (map_range env m)"
    unfolding res using entry by auto
  ultimately have dist: "distinct (map Puid result)" by simp
  have mem: "p \<in> set (assignments accessories serviceTypes) \<and>
             p = last (filter (\<lambda>q. Puid q = Puid p) (assignments accessories serviceTypes))"
    if "p \<in> set result" for p
  proof -
    have "p \<in> snd ` set (map_range env m)" using that by (simp add: res)
    then obtain k where "(k, p) \<in> set (map_range env m)" by force
    then show ?thesis using entry by blast
  qed
  have only: "\<forall>p \<in> set result.
        p \<in> set accessories \<and>
        (\<exists>t \<in> set productTypes.
           GroupID (ProductTypeGroup t) = ''SSP'' \<and> ProductTypeID p = ID t)"
  proof
    fix p assume "p \<in> set result"
    then have "p \<in> set (assignments accessories serviceTypes)" using mem by blast
    then obtain t where "p \<in> set accessories" "t \<in> set serviceTypes" "type_matches p t"
      unfolding assignments_set by blast
    then show "p \<in> set accessories \<and>
        (\<exists>t \<in> set productTypes.
           GroupID (ProductTypeGroup t) = ''SSP'' \<and> ProductTypeID p = ID t)"
      by (auto simp: serviceTypes_def FilterProductTypesByGroupId_def type_matches_def)
  qed
  have lastwins: "\<forall>p \<in> set result.
        p = last (filter (\<lambda>q. Puid q = Puid p) (assignments accessories serviceTypes))"
    using mem by blast
  have empty: "result = []"
    if none: "\<forall>p \<in> set accessories. \<forall>t \<in> set productTypes.
         GroupID (ProductTypeGroup t) = ''SSP'' \<longrightarrow> ProductTypeID p \<noteq> ID t"
  proof (rule ccontr)
    assume "result \<noteq> []"
    then obtain p where "p \<in> set result" by (cases result) auto
    then show False using only none by blast
  qed
  have present: "\<exists>q \<in> set result.
           Puid q = Puid p \<and>
           q = last (filter (\<lambda>q. Puid q = Puid p) (assignments accessories serviceTypes))"
    if p: "p \<in> set accessories" and t: "t \<in> set productTypes"
      and g: "GroupID (ProductTypeGroup t) = ''SSP''" and i: "ProductTypeID p = ID t"
      and ne: "ProductTypeID p \<noteq> []" for p t
  proof -
    let ?A = "assignments accessories serviceTypes"
    let ?q = "last (filter (\<lambda>q. Puid q = Puid p) ?A)"
    have "t \<in> set serviceTypes"
      using t g by (simp add: serviceTypes_def FilterProductTypesByGroupId_def)
    moreover have "type_matches p t" using g i ne by (simp add: type_matches_def)
    ultimately have pA: "p \<in> set ?A" using p unfolding assignments_set by blast
    then have "map_of m (Puid p) = Some ?q"
      unfolding m_def filteredProducts_of_assignments store_lookup by auto
    then have "(Puid p, ?q) \<in> set m" by (rule map_of_SomeD)
    then have in_range: "(Puid p, ?q) \<in> set (map_range env m)" unfolding set_eq .
    then have "?q \<in> set result" unfolding res by force
    moreover have "Puid ?q = Puid p" using entry [OF in_range] by simp
    ultimately show ?thesis by blast
  qed
  have keys: "fst ` set m = Puid ` set (assignments accessories serviceTypes)"
  proof -
    have "k \<in> fst ` set m \<longleftrightarrow> k \<in> Puid ` set (assignments accessories serviceTypes)" for k
    proof -
      have "k \<in> fst ` set m \<longleftrightarrow> map_of m k \<noteq> None"
        by (simp add: map_of_eq_None_iff)
      also have "\<dots> \<longleftrightarrow> (\<exists>p \<in> set (assignments accessories serviceTypes). Puid p = k)"
        unfolding m_def filteredProducts_of_assignments store_lookup by simp
      finally show ?thesis by auto
    qed
    then show ?thesis by blast
  qed
  have "length result = length (map fst m)"
    using perm [of m] unfolding res by (metis length_map size_mset)
  also have "\<dots> = card (set (map fst m))"
    using dm by (rule distinct_card [symmetric])
  also have "\<dots> = card (fst ` set m)" by simp
  finally have size: "length result = card (Puid ` set (assignments accessories serviceTypes))"
    unfolding keys .
  have "result = FilterProductsByTypeList env accessories serviceTypes" by (simp add: result_def)
  then show ?thesis
    using run dist only lastwins empty present size unfolding serviceTypes_def by blast
qed

theorem service_type_accessories_witness:
  "GetServiceTypeAccessoriesOfProduct
     (demo_env [status 200 ''200 OK'' ''types'', status 200 ''200 OK'' ''accessories''])
     demo_its () product_P world0 =
     (Inr [product_X2],
      \<lparr>waits = 2, requests = 2, slept = 0, closed_bodies = 2, logged = []\<rparr>) \<and>
   (\<exists>result.
      GetServiceTypeAccessoriesOfProduct
        (demo_env [status 200 ''200 OK'' ''types'', status 200 ''200 OK'' ''accessories''])
        demo_its () product_P world0 =
        (Inr result, \<lparr>waits = 2, requests = 2, slept = 0, closed_bodies = 2, logged = []\<rparr>) \<and>
      distinct (map Puid result))"
proof -
  let ?script = "[status 200 ''200 OK'' ''types'', status 200 ''200 OK'' ''accessories'']"
  let ?env = "demo_env ?script"
  let ?w1 = "\<lparr>waits = Suc 0, requests = Suc 0, slept = 0, closed_bodies = Suc 0, logged = []\<rparr>"
  let ?w2 = "\<lparr>waits = Suc (Suc 0), requests = Suc (Suc 0), slept = 0,
               closed_bodies = Suc (Suc 0), logged = []\<rparr>"
  let ?types = "[\<lparr>ID = ''T1'', ProductTypeGroup = \<lparr>GroupID = ''SSP''\<rparr>\<rparr>,
                 \<lparr>ID = ''T2'', ProductTypeGroup = \<lparr>GroupID = ''HW''\<rparr>\<rparr>]"
  have perm: "mset (map_range ?env m) = mset m" for m by (simp add: demo_env_def)
  have types: "GetAllProductTypes ?env demo_its () world0 = (Inr ?types, ?w1)"
    using demo_types_answer [of world0 ?script
        "\<lparr>StatusCode = 200, Status = ''200 OK'', Body = ''types''\<rparr>"
        "\<lparr>ProductTypes = ?types\<rparr>"]
    by (simp add: world0_def status_def demo_decode_types_def)
  have qs: "createQueryStrings [''X'', ''Y'', ''X''] 50 = Inr [queryString [''X'', ''Y'', ''X'']]"
    using createQueryStrings_chunks [of 50 "[''X'', ''Y'', ''X'']"]
    by (simp add: page_count_def chunk_def)
  have q: "GetProductsFromQuery ?env demo_its () query ?w1 =
             (Inr \<lparr>Product = [product_X, product_Y, product_X2]\<rparr>, ?w2)" for query
    using demo_query_answer [of ?w1 ?script
        "\<lparr>StatusCode = 200, Status = ''200 OK'', Body = ''accessories''\<rparr>" query]
    by (simp add: status_def demo_decode_def)
  have accs: "GetProductAccessories ?env demo_its () product_P ?w1 =
                (Inr [product_X, product_Y, product_X2], ?w2)"
    by (simp add: GetProductAccessories_def GetProductAccessoriesFromList_def product_P_def
        qs q Let_def)
  obtain result where run: "GetServiceTypeAccessoriesOfProduct ?env demo_its () product_P world0 =
      (Inr result, ?w2)" and d: "distinct (map Puid result)"
    using service_type_accessories [of ?env demo_its "()" world0 ?types ?w1 product_P
        "[product_X, product_Y, product_X2]" ?w2, OF perm types accs]
    by blast
  have "FilterProductsByTypeList ?env [product_X, product_Y, product_X2]
          (FilterProductTypesByGroupId ''SSP'' ?types) = [product_X2]"
    by (simp add: FilterProductsByTypeList_def FilterProductTypesByGroupId_def
        filteredProducts_of_def type_matches_def demo_env_def product_X_def product_Y_def
        product_X2_def)
  then have "GetServiceTypeAccessoriesOfProduct ?env demo_its () product_P world0 =
      (Inr [product_X2], ?w2)"
    using types accs by (simp add: GetServiceTypeAccessoriesOfProduct_def Let_def)
  then show ?thesis using run d by (simp add: numeral_2_eq_2)
qed

end
